theory Spec2Isabelle
  imports Complex_Main "HOL-Library.Multiset"
begin

section \<open>Conventions of the embedding\<close>

text \<open>
  The development embeds the core of the fraud / anomaly service: \<open>app/scoring.py\<close>,
  \<open>app/features.py\<close>, \<open>app/reasons.py\<close> and the orchestration in \<open>app/main.py\<close>.

  \<^item> Python \<open>int\<close> is \<open>int\<close>. In the store and in the features a Python \<open>float\<close> is the
    \<open>real\<close> it denotes. The scores, where the code guards and clamps, are floats with their
    infinities and NaN (type \<open>pyfloat\<close> below). Rounding to 53 bits is modelled at the one
    place where it decides whether the code raises, the argument of \<open>sqrt\<close> and \<open>asin\<close> in
    \<open>haversine_km\<close>.
  \<^item> A naive \<open>datetime\<close> is the number of microseconds since \<open>0001-01-01T00:00:00\<close>
    (\<open>datetime.min\<close>, a Monday), an \<open>int\<close>; a \<open>timedelta\<close> is a number of microseconds.
  \<^item> The SQL tables are lists of rows in insertion order. A query is a \<open>filter\<close> over the
    table, \<open>first()\<close> is the head of the result and \<open>limit(n)\<close> is \<open>take n\<close>. The store
    itself never fails to answer.
  \<^item> An exception is a value of type \<open>error\<close>. A function that can raise after it has changed
    state returns the pair of its outcome and the state it leaves behind.
\<close>

datatype error =
    ArtifactsMissing
  | KeyError string
  | NoneTypeError
  | AttributeError string
  | EstimatorError
  | OverflowError
  | ValueError
  | ZeroDivisionError
  | IntegrityError
  | HTTPException nat string

section \<open>Floats with infinities and NaN\<close>

text \<open>
  A Python \<open>float\<close> as the scoring code meets it: a finite value, an infinity or NaN. A finite
  float is the real it denotes and arithmetic on finite floats is exact, except that a result
  beyond the largest float is an infinity. Every comparison with NaN is false. Dividing by
  zero raises.
\<close>

datatype pyfloat = Fin real | PInf | NInf | NaN

definition max_float :: real where
  "max_float = 2 ^ 1024 - 2 ^ 971"

definition overflow :: "real \<Rightarrow> pyfloat" where
  "overflow r = (if r > max_float then PInf else if r < - max_float then NInf else Fin r)"

fun f_neg :: "pyfloat \<Rightarrow> pyfloat" where
  "f_neg (Fin a) = Fin (- a)"
| "f_neg PInf = NInf"
| "f_neg NInf = PInf"
| "f_neg NaN = NaN"

fun f_le :: "pyfloat \<Rightarrow> pyfloat \<Rightarrow> bool" where
  "f_le NaN _ = False"
| "f_le _ NaN = False"
| "f_le (Fin a) (Fin b) = (a \<le> b)"
| "f_le NInf _ = True"
| "f_le _ PInf = True"
| "f_le PInf _ = False"
| "f_le _ NInf = False"

fun f_lt :: "pyfloat \<Rightarrow> pyfloat \<Rightarrow> bool" where
  "f_lt NaN _ = False"
| "f_lt _ NaN = False"
| "f_lt (Fin a) (Fin b) = (a < b)"
| "f_lt PInf _ = False"
| "f_lt _ NInf = False"
| "f_lt NInf _ = True"
| "f_lt _ PInf = True"

fun f_mul :: "pyfloat \<Rightarrow> pyfloat \<Rightarrow> pyfloat" where
  "f_mul NaN _ = NaN"
| "f_mul _ NaN = NaN"
| "f_mul (Fin a) (Fin b) = overflow (a * b)"
| "f_mul (Fin a) PInf = (if a = 0 then NaN else if a > 0 then PInf else NInf)"
| "f_mul (Fin a) NInf = (if a = 0 then NaN else if a > 0 then NInf else PInf)"
| "f_mul PInf (Fin b) = (if b = 0 then NaN else if b > 0 then PInf else NInf)"
| "f_mul NInf (Fin b) = (if b = 0 then NaN else if b > 0 then NInf else PInf)"
| "f_mul PInf PInf = PInf"
| "f_mul PInf NInf = NInf"
| "f_mul NInf PInf = NInf"
| "f_mul NInf NInf = PInf"

fun f_div :: "pyfloat \<Rightarrow> pyfloat \<Rightarrow> error + pyfloat" where
  "f_div x (Fin b) =
     (if b = 0 then Inl ZeroDivisionError
      else case x of
             Fin a \<Rightarrow> Inr (overflow (a / b))
           | PInf \<Rightarrow> Inr (if b > 0 then PInf else NInf)
           | NInf \<Rightarrow> Inr (if b > 0 then NInf else PInf)
           | NaN \<Rightarrow> Inr NaN)"
| "f_div x NaN = Inr NaN"
| "f_div (Fin a) PInf = Inr (Fin 0)"
| "f_div (Fin a) NInf = Inr (Fin 0)"
| "f_div x PInf = Inr NaN"
| "f_div x NInf = Inr NaN"

section \<open>Scoring (\<open>app/scoring.py\<close>)\<close>

text \<open>
  The scaler and the isolation forest are opaque, possibly failing functions:
  \<open>scaler.transform(X)\<close> and \<open>model.score_samples(Xs)[0]\<close>.
\<close>

type_synonym scaler_t = "pyfloat list \<Rightarrow> error + pyfloat list"
type_synonym model_t = "pyfloat list \<Rightarrow> error + pyfloat"

text \<open>The content of \<open>threshold.json\<close>; \<open>None\<close> is a key that cannot be read.\<close>

record threshold_json =
  threshold_key :: "pyfloat option"
  feature_columns_key :: "string list option"

text \<open>The three artifact files; \<open>None\<close> is a file that does not exist.\<close>

record artifact_files =
  model_file :: "model_t option"
  scaler_file :: "scaler_t option"
  thresh_file :: "threshold_json option"

text \<open>The module-level dictionary \<open>_cached\<close>.\<close>

record cached =
  cached_model :: "model_t option"
  cached_scaler :: "scaler_t option"
  cached_threshold :: "pyfloat option"
  cached_feature_columns :: "string list option"

definition empty_cache :: cached where
  "empty_cache = \<lparr>cached_model = None, cached_scaler = None,
                   cached_threshold = None, cached_feature_columns = None\<rparr>"

definition load_artifacts :: "artifact_files \<Rightarrow> cached \<Rightarrow> (error + unit) \<times> cached" where
  "load_artifacts fs c =
     (case cached_model c of
        Some _ \<Rightarrow> (Inr (), c)
      | None \<Rightarrow>
         (case (model_file fs, scaler_file fs, thresh_file fs) of
            (Some m, Some s, Some t) \<Rightarrow>
              (let c1 = c\<lparr>cached_model := Some m\<rparr>;
                   c2 = c1\<lparr>cached_scaler := Some s\<rparr>
               in case threshold_key t of
                    None \<Rightarrow> (Inl (KeyError ''threshold''), c2)
                  | Some th \<Rightarrow>
                     (let c3 = c2\<lparr>cached_threshold := Some th\<rparr>
                      in case feature_columns_key t of
                           None \<Rightarrow> (Inl (KeyError ''feature_columns''), c3)
                         | Some cols \<Rightarrow> (Inr (), c3\<lparr>cached_feature_columns := Some cols\<rparr>)))
          | _ \<Rightarrow> (Inl ArtifactsMissing, c)))"

definition feature_columns :: "artifact_files \<Rightarrow> cached \<Rightarrow> (error + string list) \<times> cached" where
  "feature_columns fs c =
     (case load_artifacts fs c of
        (Inl e, c') \<Rightarrow> (Inl e, c')
      | (Inr _, c') \<Rightarrow>
         (case cached_feature_columns c' of
            None \<Rightarrow> (Inl NoneTypeError, c')
          | Some cols \<Rightarrow> (Inr cols, c')))"

text \<open>
  The body of \<open>score_feature_vector\<close> after \<open>load_artifacts()\<close>. It reads \<open>_cached\<close> three
  times, for the scaler, the model and the threshold, and each read takes the dictionary as
  it is at that moment: the three arguments are the cache at the three reads.
\<close>

definition score_feature_vector_reads ::
  "cached \<Rightarrow> cached \<Rightarrow> cached \<Rightarrow> pyfloat list \<Rightarrow> error + pyfloat \<times> pyfloat \<times> bool" where
  "score_feature_vector_reads c_scaler c_model c_threshold feature_values =
     (case cached_scaler c_scaler of
        None \<Rightarrow> Inl NoneTypeError
      | Some sc \<Rightarrow>
         (case sc feature_values of
            Inl e \<Rightarrow> Inl e
          | Inr Xs \<Rightarrow>
             (case cached_model c_model of
                None \<Rightarrow> Inl NoneTypeError
              | Some m \<Rightarrow>
                 (case m Xs of
                    Inl e \<Rightarrow> Inl e
                  | Inr s \<Rightarrow>
                     (case cached_threshold c_threshold of
                        None \<Rightarrow> Inl NoneTypeError
                      | Some threshold \<Rightarrow>
                         (let anomaly_score = f_neg s;
                              flagged = f_le threshold anomaly_score
                          in if f_le threshold (Fin 0)
                             then Inr (anomaly_score, Fin 0, flagged)
                             else (case f_div (f_mul (Fin 100) anomaly_score) threshold of
                                     Inl e \<Rightarrow> Inl e
                                   | Inr risk0 \<Rightarrow>
                                      (let risk1 = (if f_lt risk0 (Fin 0) then Fin 0 else risk0);
                                           risk = (if f_lt (Fin 100) risk1 then Fin 100 else risk1)
                                       in Inr (anomaly_score, risk, flagged)))))))))"

text \<open>In one call that nothing interrupts, the three reads see the cache that the load left.\<close>

definition score_feature_vector ::
  "artifact_files \<Rightarrow> cached \<Rightarrow> pyfloat list \<Rightarrow> (error + pyfloat \<times> pyfloat \<times> bool) \<times> cached" where
  "score_feature_vector fs c feature_values =
     (case load_artifacts fs c of
        (Inl e, c') \<Rightarrow> (Inl e, c')
      | (Inr _, c') \<Rightarrow> (score_feature_vector_reads c' c' c' feature_values, c'))"

definition reset_cache :: "cached \<Rightarrow> cached" where
  "reset_cache c =
     c\<lparr>cached_model := None, cached_scaler := None,
       cached_threshold := None, cached_feature_columns := None\<rparr>"

section \<open>The store (\<open>app/models.py\<close>)\<close>

text \<open>
  Primary keys named \<open>id\<close> in the source carry the suffix of their table here. A foreign key
  is the primary key of the row it refers to.
\<close>

record Event =
  id_ev :: int
  event_id :: string
  user_id :: string
  merchant_id :: string
  amount :: real
  currency :: string
  timestamp :: int
  lat :: real
  lon :: real
  device_id :: string
  ip :: string
  channel :: string

text \<open>\<open>ComputedFeatures\<close> of \<open>app/features.py\<close>; a \<open>FeatureRow\<close> has the same eleven columns.\<close>

record ComputedFeatures =
  log_amount :: real
  tx_count_5m :: int
  tx_count_1h :: int
  spend_1h :: real
  is_new_merchant :: int
  is_new_device :: int
  is_new_ip :: int
  distance_from_last_km :: real
  speed_kmph :: real
  hour_of_day :: int
  day_of_week :: int

record FeatureRow = ComputedFeatures +
  id_fr :: int
  event_id_fk :: int

text \<open>The kind of a reason, and what its detail text is formatted from.\<close>

datatype reason_kind =
    new_device | new_ip | new_merchant | impossible_travel
  | high_velocity_5m | high_spend_1h | amount_spike

datatype detail =
    Fixed string
  | TravelSpeed real
  | TxCount5m int
  | SpendLastHour real
  | AmountVsMedian real real

record Reason =
  reason :: reason_kind
  detail :: detail
  severity :: int

record ScoreRow =
  id_sr :: int
  event_id_fk_sr :: int
  anomaly_score_sr :: pyfloat
  risk_score_sr :: pyfloat
  flagged_sr :: int
  reasons_json :: "Reason list"
  created_at :: int

record db =
  events :: "Event list"
  features :: "FeatureRow list"
  scores :: "ScoreRow list"

definition empty_db :: db where
  "empty_db = \<lparr>events = [], features = [], scores = []\<rparr>"

text \<open>An autoincremented integer primary key: one more than the largest key in use.\<close>

definition next_id :: "int list \<Rightarrow> int" where
  "next_id ids = fold max ids 0 + 1"

text \<open>
  \<open>.first()\<close> and \<open>.order_by(Event.timestamp.desc())\<close>. Rows of equal timestamp come out
  with the row inserted last in front, as SQLite returns them when it walks the index
  backwards.
\<close>

definition first :: "'a list \<Rightarrow> 'a option" where
  "first xs = (case xs of [] \<Rightarrow> None | x # _ \<Rightarrow> Some x)"

definition order_by_timestamp_desc :: "Event list \<Rightarrow> Event list" where
  "order_by_timestamp_desc es = rev (sort_key timestamp es)"

section \<open>Feature computation (\<open>app/features.py\<close>)\<close>

definition timedelta_minutes :: "int \<Rightarrow> int" where
  "timedelta_minutes n = n * 60 * 1000000"

definition timedelta_hours :: "int \<Rightarrow> int" where
  "timedelta_hours n = n * 3600 * 1000000"

text \<open>\<open>datetime - timedelta\<close> raises \<open>OverflowError\<close> below \<open>datetime.min\<close>.\<close>

definition datetime_sub :: "int \<Rightarrow> int \<Rightarrow> error + int" where
  "datetime_sub t d = (if t - d < 0 then Inl OverflowError else Inr (t - d))"

text \<open>\<open>(a - b).total_seconds()\<close>, \<open>.hour\<close> and \<open>.weekday()\<close>.\<close>

definition total_seconds :: "int \<Rightarrow> real" where
  "total_seconds d = real_of_int d / 1000000"

definition hour :: "int \<Rightarrow> int" where
  "hour t = (t div 3600000000) mod 24"

definition weekday :: "int \<Rightarrow> int" where
  "weekday t = (t div 86400000000) mod 7"

definition radians :: "real \<Rightarrow> real" where
  "radians x = x * pi / 180"

text \<open>
  The exact value of the expression \<open>a\<close> of \<open>haversine_km\<close>, then the distance. The code
  evaluates \<open>a\<close> in floats: \<open>rnd\<close> maps the exact value to the float it gets, and the identity
  is exact arithmetic. \<open>math.sqrt\<close> raises on a negative argument and \<open>math.asin\<close> on one
  above 1.
\<close>

definition haversine_a :: "real \<Rightarrow> real \<Rightarrow> real \<Rightarrow> real \<Rightarrow> real" where
  "haversine_a lat1 lon1 lat2 lon2 =
     (let dlat = radians (lat2 - lat1);
          dlon = radians (lon2 - lon1)
      in (sin (dlat / 2))\<^sup>2 + cos (radians lat1) * cos (radians lat2) * (sin (dlon / 2))\<^sup>2)"

definition haversine_km ::
  "(real \<Rightarrow> real) \<Rightarrow> real \<Rightarrow> real \<Rightarrow> real \<Rightarrow> real \<Rightarrow> error + real" where
  "haversine_km rnd lat1 lon1 lat2 lon2 =
     (let r = 6371;
          a = rnd (haversine_a lat1 lon1 lat2 lon2)
      in if a < 0 then Inl ValueError
         else if sqrt a > 1 then Inl ValueError
         else (let c = 2 * arcsin (sqrt a) in Inr (r * c)))"

definition compute_features ::
  "(real \<Rightarrow> real) \<Rightarrow> db \<Rightarrow> Event \<Rightarrow> error + ComputedFeatures" where
  "compute_features rnd d incoming =
     (let t = timestamp incoming in
      case datetime_sub t (timedelta_minutes 5) of
        Inl e \<Rightarrow> Inl e
      | Inr window_5m_start \<Rightarrow>
      (case datetime_sub t (timedelta_hours 1) of
        Inl e \<Rightarrow> Inl e
      | Inr window_1h_start \<Rightarrow>
      (let recent_5m = filter (\<lambda>e. user_id e = user_id incoming
                                  \<and> timestamp e \<ge> window_5m_start \<and> timestamp e < t) (events d);
           recent_1h = filter (\<lambda>e. user_id e = user_id incoming
                                  \<and> timestamp e \<ge> window_1h_start \<and> timestamp e < t) (events d);
           tx_count_5m = int (length recent_5m);
           tx_count_1h = int (length recent_1h);
           spend_1h = fold (\<lambda>e acc. acc + amount e) recent_1h 0;
           last_event = first (order_by_timestamp_desc
                          (filter (\<lambda>e. user_id e = user_id incoming \<and> timestamp e < t) (events d)));
           is_new_merchant =
             (if first (filter (\<lambda>e. user_id e = user_id incoming
                                  \<and> merchant_id e = merchant_id incoming
                                  \<and> timestamp e < t) (events d)) \<noteq> None
              then 0 else 1);
           is_new_device =
             (if first (filter (\<lambda>e. user_id e = user_id incoming
                                  \<and> device_id e = device_id incoming
                                  \<and> timestamp e < t) (events d)) \<noteq> None
              then 0 else 1);
           is_new_ip =
             (if first (filter (\<lambda>e. user_id e = user_id incoming
                                  \<and> ip e = ip incoming
                                  \<and> timestamp e < t) (events d)) \<noteq> None
              then 0 else 1)
       in case (case last_event of
                  None \<Rightarrow> Inr 0
                | Some l \<Rightarrow> haversine_km rnd (lat l) (lon l) (lat incoming) (lon incoming)) of
            Inl e \<Rightarrow> Inl e
          | Inr km \<Rightarrow>
             (let distance_from_last_km = km;
                  speed_kmph =
                    (case last_event of
                       None \<Rightarrow> 0
                     | Some l \<Rightarrow>
                        (let dt_seconds = total_seconds (timestamp incoming - timestamp l)
                         in if dt_seconds > 0
                            then distance_from_last_km / (dt_seconds / 3600) else 0));
                  amt = amount incoming;
                  log_amount = (if amt > 0 then ln amt else 0)
              in Inr \<lparr>log_amount = log_amount,
                      tx_count_5m = tx_count_5m,
                      tx_count_1h = tx_count_1h,
                      spend_1h = spend_1h,
                      is_new_merchant = is_new_merchant,
                      is_new_device = is_new_device,
                      is_new_ip = is_new_ip,
                      distance_from_last_km = distance_from_last_km,
                      speed_kmph = speed_kmph,
                      hour_of_day = hour (timestamp incoming),
                      day_of_week = weekday (timestamp incoming)\<rparr>))))"

section \<open>Reasons (\<open>app/reasons.py\<close>)\<close>

text \<open>
  The amounts of the up to 30 most recent events of the user strictly before the event:
  the query \<open>prior_amounts\<close> of \<open>build_reasons\<close>.
\<close>

definition prior_amounts :: "db \<Rightarrow> Event \<Rightarrow> real list" where
  "prior_amounts d ev =
     map amount (take 30 (order_by_timestamp_desc
       (filter (\<lambda>e. user_id e = user_id ev \<and> timestamp e < timestamp ev) (events d))))"

text \<open>
  The list \<open>reasons\<close> of \<open>build_reasons\<close> as it stands before the sort: one \<open>if\<close> per rule,
  each appending at most one reason, in the order of the source.
\<close>

definition firing_reasons :: "db \<Rightarrow> Event \<Rightarrow> FeatureRow \<Rightarrow> Reason list" where
  "firing_reasons d ev fr =
     (if is_new_device fr = 1
      then [\<lparr>reason = new_device,
             detail = Fixed ''Device not seen before for this user'', severity = 85\<rparr>]
      else [])
   @ (if is_new_ip fr = 1
      then [\<lparr>reason = new_ip,
             detail = Fixed ''IP address not seen before for this user'', severity = 80\<rparr>]
      else [])
   @ (if is_new_merchant fr = 1
      then [\<lparr>reason = new_merchant,
             detail = Fixed ''Merchant not seen before for this user'', severity = 65\<rparr>]
      else [])
   @ (if speed_kmph fr \<ge> 900
      then [\<lparr>reason = impossible_travel,
             detail = TravelSpeed (speed_kmph fr), severity = 95\<rparr>]
      else [])
   @ (if tx_count_5m fr \<ge> 3
      then [\<lparr>reason = high_velocity_5m,
             detail = TxCount5m (tx_count_5m fr), severity = 90\<rparr>]
      else [])
   @ (if spend_1h fr \<ge> 800
      then [\<lparr>reason = high_spend_1h,
             detail = SpendLastHour (spend_1h fr), severity = 70\<rparr>]
      else [])
   @ (let vals = prior_amounts d ev in
      if length vals \<ge> 10
      then (let vals_sorted = sort vals;
                median = vals_sorted ! (length vals_sorted div 2)
            in if median > 0 \<and> amount ev \<ge> 4 * median
               then [\<lparr>reason = amount_spike,
                      detail = AmountVsMedian (amount ev) median, severity = 75\<rparr>]
               else [])
      else [])"

text \<open>\<open>sorted(reasons, key=severity, reverse=True)[:3]\<close>; Python's sort is stable.\<close>

definition build_reasons :: "db \<Rightarrow> Event \<Rightarrow> FeatureRow \<Rightarrow> Reason list" where
  "build_reasons d ev fr = take 3 (sort_key (\<lambda>r. - severity r) (firing_reasons d ev fr))"

section \<open>Orchestration (\<open>app/main.py\<close>)\<close>

text \<open>
  A request reaches these functions after the framework has checked its field types and
  lengths. The suffix \<open>_req\<close> and \<open>_resp\<close> tells the fields of a request and of a response
  from the columns of the same name.
\<close>

record IngestEventRequest =
  event_id_req :: string
  user_id_req :: string
  merchant_id_req :: string
  amount_req :: real
  currency_req :: string
  timestamp_req :: string
  lat_req :: real
  lon_req :: real
  device_id_req :: string
  ip_req :: string
  channel_req :: string

record IngestEventResponse =
  stored_event_id :: int
  stored_feature_id :: int

record ScoreResponse =
  event_id_resp :: string
  anomaly_score :: pyfloat
  risk_score :: pyfloat
  flagged :: bool
  reasons :: "Reason list"

text \<open>
  The two inserts. \<open>event_id\<close> and \<open>event_id_fk\<close> are declared unique, so a commit that would
  repeat one raises and leaves the table as it was.
\<close>

definition add_event :: "db \<Rightarrow> Event \<Rightarrow> error + db" where
  "add_event d ev =
     (if event_id ev \<in> set (map event_id (events d)) then Inl IntegrityError
      else Inr (d\<lparr>events := events d @ [ev]\<rparr>))"

definition add_feature :: "db \<Rightarrow> FeatureRow \<Rightarrow> error + db" where
  "add_feature d fr =
     (if event_id_fk fr \<in> set (map event_id_fk (features d)) then Inl IntegrityError
      else Inr (d\<lparr>features := features d @ [fr]\<rparr>))"

text \<open>
  \<open>isoparse\<close> stands for \<open>dateutil\<close>'s parser followed by the conversion to a naive local
  time; \<open>None\<close> is any exception raised there.
\<close>

definition upsert_event_and_features ::
  "(real \<Rightarrow> real) \<Rightarrow> (string \<Rightarrow> int option) \<Rightarrow> db \<Rightarrow> IngestEventRequest
     \<Rightarrow> (error + Event \<times> FeatureRow) \<times> db" where
  "upsert_event_and_features rnd isoparse d req =
     (case List.find (\<lambda>e. event_id e = event_id_req req) (events d) of
        Some existing \<Rightarrow>
          (case List.find (\<lambda>f. event_id_fk f = id_ev existing) (features d) of
             None \<Rightarrow> (Inl (HTTPException 500 ''event exists but features missing''), d)
           | Some fr \<Rightarrow> (Inr (existing, fr), d))
      | None \<Rightarrow>
          (case isoparse (timestamp_req req) of
             None \<Rightarrow> (Inl (HTTPException 400 ''invalid timestamp format''), d)
           | Some ts \<Rightarrow>
              (let ev = \<lparr>id_ev = next_id (map id_ev (events d)),
                         event_id = event_id_req req,
                         user_id = user_id_req req,
                         merchant_id = merchant_id_req req,
                         amount = amount_req req,
                         currency = currency_req req,
                         timestamp = ts,
                         lat = lat_req req,
                         lon = lon_req req,
                         device_id = device_id_req req,
                         ip = ip_req req,
                         channel = channel_req req\<rparr>
               in case add_event d ev of
                    Inl e \<Rightarrow> (Inl e, d)
                  | Inr d1 \<Rightarrow>
                     (case compute_features rnd d1 ev of
                        Inl e \<Rightarrow> (Inl e, d1)
                      | Inr feats \<Rightarrow>
                         (let fr = \<lparr>log_amount = log_amount feats,
                                    tx_count_5m = tx_count_5m feats,
                                    tx_count_1h = tx_count_1h feats,
                                    spend_1h = spend_1h feats,
                                    is_new_merchant = is_new_merchant feats,
                                    is_new_device = is_new_device feats,
                                    is_new_ip = is_new_ip feats,
                                    distance_from_last_km = distance_from_last_km feats,
                                    speed_kmph = speed_kmph feats,
                                    hour_of_day = hour_of_day feats,
                                    day_of_week = day_of_week feats,
                                    id_fr = next_id (map id_fr (features d1)),
                                    event_id_fk = id_ev ev\<rparr>
                          in case add_feature d1 fr of
                               Inl e \<Rightarrow> (Inl e, d1)
                             | Inr d2 \<Rightarrow> (Inr (ev, fr), d2))))))"

text \<open>
  \<open>float(getattr(fr, c))\<close> for a column name of the artifact: the columns of the table
  \<open>features\<close> are numbers, any other name is an error. The values enter the scoring as
  finite floats.
\<close>

definition getattr_float :: "FeatureRow \<Rightarrow> string \<Rightarrow> error + real" where
  "getattr_float fr c =
     (if c = ''log_amount'' then Inr (log_amount fr)
      else if c = ''tx_count_5m'' then Inr (real_of_int (tx_count_5m fr))
      else if c = ''tx_count_1h'' then Inr (real_of_int (tx_count_1h fr))
      else if c = ''spend_1h'' then Inr (spend_1h fr)
      else if c = ''is_new_merchant'' then Inr (real_of_int (is_new_merchant fr))
      else if c = ''is_new_device'' then Inr (real_of_int (is_new_device fr))
      else if c = ''is_new_ip'' then Inr (real_of_int (is_new_ip fr))
      else if c = ''distance_from_last_km'' then Inr (distance_from_last_km fr)
      else if c = ''speed_kmph'' then Inr (speed_kmph fr)
      else if c = ''hour_of_day'' then Inr (real_of_int (hour_of_day fr))
      else if c = ''day_of_week'' then Inr (real_of_int (day_of_week fr))
      else if c = ''id'' then Inr (real_of_int (id_fr fr))
      else if c = ''event_id_fk'' then Inr (real_of_int (event_id_fk fr))
      else Inl (AttributeError c))"

fun feature_values_of :: "FeatureRow \<Rightarrow> string list \<Rightarrow> error + real list" where
  "feature_values_of fr [] = Inr []"
| "feature_values_of fr (c # cs) =
     (case getattr_float fr c of
        Inl e \<Rightarrow> Inl e
      | Inr v \<Rightarrow>
         (case feature_values_of fr cs of
            Inl e \<Rightarrow> Inl e
          | Inr vs \<Rightarrow> Inr (v # vs)))"

text \<open>\<open>now\<close> is the value of \<open>datetime.utcnow()\<close> at the call.\<close>

definition upsert_score_row ::
  "db \<Rightarrow> Event \<Rightarrow> pyfloat \<Rightarrow> pyfloat \<Rightarrow> bool \<Rightarrow> Reason list \<Rightarrow> int \<Rightarrow> db" where
  "upsert_score_row d ev a r f rs now =
     (case List.find (\<lambda>s. event_id_fk_sr s = id_ev ev) (scores d) of
        None \<Rightarrow>
          d\<lparr>scores := scores d @
              [\<lparr>id_sr = next_id (map id_sr (scores d)),
                event_id_fk_sr = id_ev ev,
                anomaly_score_sr = a,
                risk_score_sr = r,
                flagged_sr = (if f then 1 else 0),
                reasons_json = rs,
                created_at = now\<rparr>]\<rparr>
      | Some existing_score \<Rightarrow>
          d\<lparr>scores := map (\<lambda>s. if id_sr s = id_sr existing_score
                                then s\<lparr>anomaly_score_sr := a,
                                       risk_score_sr := r,
                                       flagged_sr := (if f then 1 else 0),
                                       reasons_json := rs,
                                       created_at := now\<rparr>
                                else s) (scores d)\<rparr>)"

definition ingest ::
  "(real \<Rightarrow> real) \<Rightarrow> (string \<Rightarrow> int option) \<Rightarrow> db \<Rightarrow> IngestEventRequest
     \<Rightarrow> (error + IngestEventResponse) \<times> db" where
  "ingest rnd isoparse d req =
     (case upsert_event_and_features rnd isoparse d req of
        (Inl e, d1) \<Rightarrow> (Inl e, d1)
      | (Inr (ev, fr), d1) \<Rightarrow>
          (Inr \<lparr>stored_event_id = id_ev ev, stored_feature_id = id_fr fr\<rparr>, d1))"

text \<open>
  The endpoint \<open>/score\<close>. What has been committed stays committed when a later step raises:
  the function returns the store and the cache as the exception leaves them.
\<close>

definition score ::
  "(real \<Rightarrow> real) \<Rightarrow> (string \<Rightarrow> int option) \<Rightarrow> artifact_files \<Rightarrow> int \<Rightarrow> db \<Rightarrow> cached
     \<Rightarrow> IngestEventRequest \<Rightarrow> (error + ScoreResponse) \<times> db \<times> cached" where
  "score rnd isoparse fs now d c req =
     (case upsert_event_and_features rnd isoparse d req of
        (Inl e, d1) \<Rightarrow> (Inl e, d1, c)
      | (Inr (ev, fr), d1) \<Rightarrow>
         (case feature_columns fs c of
            (Inl e, c1) \<Rightarrow> (Inl e, d1, c1)
          | (Inr cols, c1) \<Rightarrow>
             (case feature_values_of fr cols of
                Inl e \<Rightarrow> (Inl e, d1, c1)
              | Inr feature_values \<Rightarrow>
                 (case score_feature_vector fs c1 (map Fin feature_values) of
                    (Inl e, c2) \<Rightarrow> (Inl e, d1, c2)
                  | (Inr (a, r, f), c2) \<Rightarrow>
                     (let rs = build_reasons d1 ev fr;
                          d2 = upsert_score_row d1 ev a r f rs now
                      in (Inr \<lparr>event_id_resp = event_id ev,
                                anomaly_score = a,
                                risk_score = r,
                                flagged = f,
                                reasons = rs\<rparr>, d2, c2))))))"

section \<open>The risk score as the specification words it\<close>

text \<open>
  Clamping into \<open>[0, 100]\<close>: a value below 0 becomes 0 and a value above 100 becomes 100, in
  the comparisons of floats. \<open>is_inf\<close> holds of the two infinities.
\<close>

definition spec_clamp :: "pyfloat \<Rightarrow> pyfloat" where
  "spec_clamp q = (if f_lt q (Fin 0) then Fin 0 else if f_lt (Fin 100) q then Fin 100 else q)"

definition is_inf :: "pyfloat \<Rightarrow> bool" where
  "is_inf x \<longleftrightarrow> x = PInf \<or> x = NInf"

section \<open>The windows as the specification words them\<close>

text \<open>
  The half-open window \<open>[t - w, t)\<close> of the events of the same user, and the events of the
  same user strictly before the event.
\<close>

definition spec_in_window :: "Event \<Rightarrow> int \<Rightarrow> Event \<Rightarrow> bool" where
  "spec_in_window ev w e \<longleftrightarrow>
     user_id e = user_id ev \<and> timestamp ev - w \<le> timestamp e \<and> timestamp e < timestamp ev"

definition spec_strictly_before :: "Event \<Rightarrow> Event \<Rightarrow> bool" where
  "spec_strictly_before ev e \<longleftrightarrow> user_id e = user_id ev \<and> timestamp e < timestamp ev"

section \<open>The reason rules as the specification words them\<close>

text \<open>
  The fixed evaluation order of the rules, the position of a rule in it, the strict order
  ``higher severity first, then earlier rule'', the severity and the condition of each rule,
  and what it means to be the \<open>n\<close> most recent of a list of events.
\<close>

definition spec_rule_order :: "reason_kind list" where
  "spec_rule_order = [new_device, new_ip, new_merchant, impossible_travel,
                      high_velocity_5m, high_spend_1h, amount_spike]"

fun spec_rule_index :: "reason_kind \<Rightarrow> nat" where
  "spec_rule_index new_device = 1"
| "spec_rule_index new_ip = 2"
| "spec_rule_index new_merchant = 3"
| "spec_rule_index impossible_travel = 4"
| "spec_rule_index high_velocity_5m = 5"
| "spec_rule_index high_spend_1h = 6"
| "spec_rule_index amount_spike = 7"

definition spec_ranks_before :: "Reason \<Rightarrow> Reason \<Rightarrow> bool" where
  "spec_ranks_before a b \<longleftrightarrow>
     severity a > severity b
   \<or> (severity a = severity b \<and> spec_rule_index (reason a) < spec_rule_index (reason b))"

fun spec_rule_severity :: "reason_kind \<Rightarrow> int" where
  "spec_rule_severity new_device = 85"
| "spec_rule_severity new_ip = 80"
| "spec_rule_severity new_merchant = 65"
| "spec_rule_severity impossible_travel = 95"
| "spec_rule_severity high_velocity_5m = 90"
| "spec_rule_severity high_spend_1h = 70"
| "spec_rule_severity amount_spike = 75"

definition spec_amount_spike :: "real list \<Rightarrow> real \<Rightarrow> bool" where
  "spec_amount_spike sample amt \<longleftrightarrow>
     length sample \<ge> 10
   \<and> 0 < sort sample ! (length sample div 2)
   \<and> amt \<ge> 4 * (sort sample ! (length sample div 2))"

fun spec_rule_fires :: "db \<Rightarrow> Event \<Rightarrow> FeatureRow \<Rightarrow> reason_kind \<Rightarrow> bool" where
  "spec_rule_fires d ev fr new_device = (is_new_device fr = 1)"
| "spec_rule_fires d ev fr new_ip = (is_new_ip fr = 1)"
| "spec_rule_fires d ev fr new_merchant = (is_new_merchant fr = 1)"
| "spec_rule_fires d ev fr impossible_travel = (speed_kmph fr \<ge> 900)"
| "spec_rule_fires d ev fr high_velocity_5m = (tx_count_5m fr \<ge> 3)"
| "spec_rule_fires d ev fr high_spend_1h = (spend_1h fr \<ge> 800)"
| "spec_rule_fires d ev fr amount_spike = spec_amount_spike (prior_amounts d ev) (amount ev)"

definition spec_most_recent :: "nat \<Rightarrow> Event list \<Rightarrow> Event list \<Rightarrow> bool" where
  "spec_most_recent n before sel \<longleftrightarrow>
     length sel = min n (length before)
   \<and> mset sel \<subseteq># mset before
   \<and> sorted_wrt (\<lambda>a b. timestamp a \<ge> timestamp b) sel
   \<and> (\<forall>e\<in>#(mset before - mset sel). \<forall>s\<in>set sel. timestamp e \<le> timestamp s)"

section \<open>Example data\<close>

text \<open>No artifact published, and a published artifact with threshold 2.\<close>

definition fs_none :: artifact_files where
  "fs_none = \<lparr>model_file = None, scaler_file = None, thresh_file = None\<rparr>"

definition fs_demo :: artifact_files where
  "fs_demo = \<lparr>model_file = Some (\<lambda>xs. Inr (Fin (- 1))),
              scaler_file = Some (\<lambda>xs. Inr xs),
              thresh_file = Some \<lparr>threshold_key = Some (Fin 2),
                                   feature_columns_key = Some [''tx_count_5m'']\<rparr>\<rparr>"

text \<open>
  A parser that reads two timestamps, the first instant of the calendar and the start of its
  second day.
\<close>

definition isoparse_demo :: "string \<Rightarrow> int option" where
  "isoparse_demo s =
     (if s = ''0001-01-02T00:00:00'' then Some 86400000000
      else if s = ''0001-01-01T00:00:00'' then Some 0
      else None)"

definition req_demo :: IngestEventRequest where
  "req_demo = \<lparr>event_id_req = ''e1'', user_id_req = ''u1'', merchant_id_req = ''m1'',
               amount_req = 0, currency_req = ''USD'',
               timestamp_req = ''0001-01-02T00:00:00'',
               lat_req = 0, lon_req = 0, device_id_req = ''d1'', ip_req = ''i1'',
               channel_req = ''web''\<rparr>"

text \<open>An event of user \<open>u1\<close> with a given key, time and amount.\<close>

definition ev_demo :: "int \<Rightarrow> int \<Rightarrow> real \<Rightarrow> Event" where
  "ev_demo k t a = \<lparr>id_ev = k, event_id = ''e'', user_id = ''u1'', merchant_id = ''m1'',
                    amount = a, currency = ''USD'', timestamp = t, lat = 0, lon = 0,
                    device_id = ''d1'', ip = ''i1'', channel = ''web''\<rparr>"

definition fr_demo :: FeatureRow where
  "fr_demo = \<lparr>log_amount = 0, tx_count_5m = 3, tx_count_1h = 3, spend_1h = 0,
              is_new_merchant = 1, is_new_device = 1, is_new_ip = 1,
              distance_from_last_km = 0, speed_kmph = 0, hour_of_day = 0, day_of_week = 0,
              id_fr = 1, event_id_fk = 1\<rparr>"

text \<open>The cache once \<open>fs_demo\<close> is loaded.\<close>

definition cache_demo :: cached where
  "cache_demo = \<lparr>cached_model = Some (\<lambda>xs. Inr (Fin (- 1))),
                 cached_scaler = Some (\<lambda>xs. Inr xs),
                 cached_threshold = Some (Fin 2), cached_feature_columns = Some [''tx_count_5m'']\<rparr>"

text \<open>An artifact whose raw score, 1, is exactly its threshold.\<close>

definition fs_boundary :: artifact_files where
  "fs_boundary = \<lparr>model_file = Some (\<lambda>xs. Inr (Fin (- 1))),
                  scaler_file = Some (\<lambda>xs. Inr xs),
                  thresh_file = Some \<lparr>threshold_key = Some (Fin 1),
                                       feature_columns_key = Some [''tx_count_5m'']\<rparr>\<rparr>"

definition cache_boundary :: cached where
  "cache_boundary = \<lparr>cached_model = Some (\<lambda>xs. Inr (Fin (- 1))),
                     cached_scaler = Some (\<lambda>xs. Inr xs),
                     cached_threshold = Some (Fin 1), cached_feature_columns = Some [''tx_count_5m'']\<rparr>"

text \<open>
  A store of three events of \<open>u1\<close>, the last at the very time of the incoming event, and the
  features of the incoming event.
\<close>

definition db_demo :: db where
  "db_demo = \<lparr>events = [ev_demo 1 86400000000 10, ev_demo 2 87000000000 20,
                         ev_demo 3 87120000000 7],
              features = [], scores = []\<rparr>"

definition ev_in :: Event where
  "ev_in = ev_demo 4 87120000000 1"

definition f_demo :: ComputedFeatures where
  "f_demo = \<lparr>log_amount = 0, tx_count_5m = 1, tx_count_1h = 2, spend_1h = 30,
             is_new_merchant = 0, is_new_device = 0, is_new_ip = 0,
             distance_from_last_km = 0, speed_kmph = 0, hour_of_day = 0, day_of_week = 1\<rparr>"

text \<open>
  Ten earlier events of \<open>u1\<close> whose amounts have the middle element 50, and an event of 250.
\<close>

definition db_spike :: db where
  "db_spike = \<lparr>events = [ev_demo 1 86400000000 50, ev_demo 2 86460000000 10,
                          ev_demo 3 86520000000 90, ev_demo 4 86580000000 20,
                          ev_demo 5 86640000000 80, ev_demo 6 86700000000 30,
                          ev_demo 7 86760000000 70, ev_demo 8 86820000000 40,
                          ev_demo 9 86880000000 60, ev_demo 10 86940000000 50],
               features = [], scores = []\<rparr>"

definition ev_spike :: Event where
  "ev_spike = ev_demo 11 90000000000 250"

text \<open>
  The rows that the request \<open>req_demo\<close> leaves in an empty store: after \<open>/ingest\<close> or a
  failed \<open>/score\<close> (\<open>db1\<close>), and after a successful \<open>/score\<close> at time 7 (\<open>db2\<close>).
\<close>

definition ev1 :: Event where
  "ev1 = \<lparr>id_ev = 1, event_id = ''e1'', user_id = ''u1'', merchant_id = ''m1'',
           amount = 0, currency = ''USD'', timestamp = 86400000000, lat = 0, lon = 0,
           device_id = ''d1'', ip = ''i1'', channel = ''web''\<rparr>"

definition fr1 :: FeatureRow where
  "fr1 = \<lparr>log_amount = 0, tx_count_5m = 0, tx_count_1h = 0, spend_1h = 0,
           is_new_merchant = 1, is_new_device = 1, is_new_ip = 1,
           distance_from_last_km = 0, speed_kmph = 0, hour_of_day = 0, day_of_week = 1,
           id_fr = 1, event_id_fk = 1\<rparr>"

definition db1 :: db where
  "db1 = \<lparr>events = [ev1], features = [fr1], scores = []\<rparr>"

definition reasons1 :: "Reason list" where
  "reasons1 = [\<lparr>reason = new_device,
                 detail = Fixed ''Device not seen before for this user'', severity = 85\<rparr>,
               \<lparr>reason = new_ip,
                 detail = Fixed ''IP address not seen before for this user'', severity = 80\<rparr>,
               \<lparr>reason = new_merchant,
                 detail = Fixed ''Merchant not seen before for this user'', severity = 65\<rparr>]"

definition resp1 :: ScoreResponse where
  "resp1 = \<lparr>event_id_resp = ''e1'', anomaly_score = Fin 1, risk_score = Fin 50,
             flagged = False,
             reasons = reasons1\<rparr>"

definition db2 :: db where
  "db2 = \<lparr>events = [ev1], features = [fr1],
           scores = [\<lparr>id_sr = 1, event_id_fk_sr = 1, anomaly_score_sr = Fin 1,
                      risk_score_sr = Fin 50, flagged_sr = 0, reasons_json = reasons1, created_at = 7\<rparr>]\<rparr>"

text \<open>An artifact whose model answers NaN, and the cache once it is loaded.\<close>

definition fs_nan :: artifact_files where
  "fs_nan = \<lparr>model_file = Some (\<lambda>xs. Inr NaN),
             scaler_file = Some (\<lambda>xs. Inr xs),
             thresh_file = Some \<lparr>threshold_key = Some (Fin 2),
                                  feature_columns_key = Some [''tx_count_5m'']\<rparr>\<rparr>"

definition cache_nan :: cached where
  "cache_nan = \<lparr>cached_model = Some (\<lambda>xs. Inr NaN),
                cached_scaler = Some (\<lambda>xs. Inr xs),
                cached_threshold = Some (Fin 2),
                cached_feature_columns = Some [''tx_count_5m'']\<rparr>"

text \<open>
  Two published artifacts that differ in scaler, model and threshold, and the cache once each
  is loaded: the old one scores every vector \<open>1\<close> against the threshold 4, the new one
  doubles the vector, scores it by its only entry and has the threshold 2.
\<close>

definition fs_old :: artifact_files where
  "fs_old = \<lparr>model_file = Some (\<lambda>xs. Inr (Fin (- 1))),
             scaler_file = Some (\<lambda>xs. Inr xs),
             thresh_file = Some \<lparr>threshold_key = Some (Fin 4),
                                  feature_columns_key = Some [''tx_count_5m'']\<rparr>\<rparr>"

definition cache_old :: cached where
  "cache_old = \<lparr>cached_model = Some (\<lambda>xs. Inr (Fin (- 1))),
                cached_scaler = Some (\<lambda>xs. Inr xs),
                cached_threshold = Some (Fin 4),
                cached_feature_columns = Some [''tx_count_5m'']\<rparr>"

definition model_new :: model_t where
  "model_new xs = (case xs of [x] \<Rightarrow> Inr (f_neg x) | _ \<Rightarrow> Inl EstimatorError)"

definition scaler_new :: scaler_t where
  "scaler_new xs = Inr (map (f_mul (Fin 2)) xs)"

definition fs_new :: artifact_files where
  "fs_new = \<lparr>model_file = Some model_new,
             scaler_file = Some scaler_new,
             thresh_file = Some \<lparr>threshold_key = Some (Fin 2),
                                  feature_columns_key = Some [''tx_count_5m'']\<rparr>\<rparr>"

definition cache_new :: cached where
  "cache_new = \<lparr>cached_model = Some model_new,
                cached_scaler = Some scaler_new,
                cached_threshold = Some (Fin 2),
                cached_feature_columns = Some [''tx_count_5m'']\<rparr>"




section \<open>Properties\<close>

subsection \<open>Floats\<close>

lemma f_div_defined:
  assumes "\<not> f_le th (Fin 0)"
  shows "\<exists>q. f_div x th = Inr q"
  using assms by (cases th; cases x) auto

lemma f_mul_100_NaN: "f_mul (Fin 100) a = NaN \<longleftrightarrow> a = NaN"
  by (cases a) (auto simp: overflow_def)

lemma f_div_NaN:
  assumes "f_div n th = Inr q"
  shows "q = NaN \<longleftrightarrow> n = NaN \<or> th = NaN \<or> (is_inf n \<and> is_inf th)"
  using assms by (cases th; cases n) (auto simp: overflow_def is_inf_def split: if_splits)

lemma spec_clamp_NaN: "spec_clamp q = NaN \<longleftrightarrow> q = NaN"
  by (cases q) (auto simp: spec_clamp_def)

lemma spec_clamp_range:
  assumes "q \<noteq> NaN"
  shows "f_le (Fin 0) (spec_clamp q) \<and> f_le (spec_clamp q) (Fin 100)"
  using assms by (cases q) (auto simp: spec_clamp_def)

subsection \<open>Scoring\<close>

lemma load_artifacts_cached:
  "cached_model c = Some m \<Longrightarrow> load_artifacts fs c = (Inr (), c)"
  by (simp add: load_artifacts_def)

lemma load_artifacts_missing:
  assumes "cached_model c = None"
    and "model_file fs = None \<or> scaler_file fs = None \<or> thresh_file fs = None"
  shows "load_artifacts fs c = (Inl ArtifactsMissing, c)"
  using assms by (auto simp: load_artifacts_def split: option.splits)

lemma score_feature_vector_reads_eq:
  assumes "cached_scaler c1 = Some sc" and "sc fv = Inr Xs"
    and "cached_model c2 = Some m" and "m Xs = Inr s"
    and "cached_threshold c3 = Some th"
  shows "score_feature_vector_reads c1 c2 c3 fv =
           (if f_le th (Fin 0) then Inr (f_neg s, Fin 0, f_le th (f_neg s))
            else case f_div (f_mul (Fin 100) (f_neg s)) th of
                   Inl e \<Rightarrow> Inl e
                 | Inr q \<Rightarrow> Inr (f_neg s, spec_clamp q, f_le th (f_neg s)))"
  using assms unfolding score_feature_vector_reads_def Let_def spec_clamp_def
  by (simp split: sum.splits)

lemma score_feature_vector_reads_Inr:
  assumes "score_feature_vector_reads c1 c2 c3 fv = Inr (a, risk, fl)"
  shows "\<exists>m sc th Xs s.
           cached_scaler c1 = Some sc \<and> sc fv = Inr Xs
         \<and> cached_model c2 = Some m \<and> m Xs = Inr s
         \<and> cached_threshold c3 = Some th"
  using assms unfolding score_feature_vector_reads_def
  by (simp split: option.splits sum.splits)

text \<open>
  In a sequential run, the first load after \<open>reset_cache\<close> fills all four cache fields from
  the files as they are then.
\<close>

lemma reset_cache_reload:
  assumes "model_file fs = Some m" and "scaler_file fs = Some s"
    and "thresh_file fs = Some t" and "threshold_key t = Some th"
    and "feature_columns_key t = Some cols"
  shows "load_artifacts fs (reset_cache c) =
           (Inr (), \<lparr>cached_model = Some m, cached_scaler = Some s,
                      cached_threshold = Some th, cached_feature_columns = Some cols\<rparr>)"
  using assms by (simp add: load_artifacts_def reset_cache_def)

lemma score_feature_vector_Inr:
  assumes "score_feature_vector fs c fv = (Inr (a, risk, fl), c')"
  shows "c' = snd (load_artifacts fs c)
       \<and> (\<exists>u. load_artifacts fs c = (Inr u, c'))
       \<and> score_feature_vector_reads c' c' c' fv = Inr (a, risk, fl)"
  using assms unfolding score_feature_vector_def
  by (auto split: prod.splits sum.splits)

text \<open>
  C1, as the code has it. For every artifact, cache and feature vector for which the load, the
  scaler and the model answer, \<open>score_feature_vector\<close> returns, with the raw score the
  negated answer of the model. The risk is 0 when \<open>threshold \<le> 0\<close>; otherwise it is
  \<open>100 * raw / threshold\<close>, in float arithmetic, clamped into \<open>[0, 100]\<close>. It is NaN exactly
  when \<open>threshold \<le> 0\<close> fails and the raw score is NaN, the threshold is NaN, or
  \<open>100 * raw\<close> and the threshold are both infinite; in every other case it lies in
  \<open>[0, 100]\<close>.
\<close>

theorem score_feature_vector_risk:
  assumes "load_artifacts fs c = (Inr u, c1)"
    and "cached_scaler c1 = Some sc" and "sc fv = Inr Xs"
    and "cached_model c1 = Some m" and "m Xs = Inr s"
    and "cached_threshold c1 = Some th"
  shows "\<exists>risk. score_feature_vector fs c fv = (Inr (f_neg s, risk, f_le th (f_neg s)), c1)
       \<and> (f_le th (Fin 0) \<longrightarrow> risk = Fin 0)
       \<and> (\<not> f_le th (Fin 0) \<longrightarrow>
             (\<exists>q. f_div (f_mul (Fin 100) (f_neg s)) th = Inr q \<and> risk = spec_clamp q))
       \<and> (risk = NaN \<longleftrightarrow>
             \<not> f_le th (Fin 0)
           \<and> (s = NaN \<or> th = NaN \<or> (is_inf (f_mul (Fin 100) (f_neg s)) \<and> is_inf th)))
       \<and> (risk \<noteq> NaN \<longrightarrow> f_le (Fin 0) risk \<and> f_le risk (Fin 100))"
proof (cases "f_le th (Fin 0)")
  case True
  have "score_feature_vector fs c fv = (Inr (f_neg s, Fin 0, f_le th (f_neg s)), c1)"
    unfolding score_feature_vector_def assms(1)
    by (simp add: score_feature_vector_reads_eq[OF assms(2-6)] True)
  with True show ?thesis by simp
next
  case False
  from f_div_defined[OF False] obtain q where
    q: "f_div (f_mul (Fin 100) (f_neg s)) th = Inr q" by blast
  have r: "score_feature_vector fs c fv = (Inr (f_neg s, spec_clamp q, f_le th (f_neg s)), c1)"
    unfolding score_feature_vector_def assms(1)
    by (simp add: score_feature_vector_reads_eq[OF assms(2-6)] False q)
  have n: "f_neg s = NaN \<longleftrightarrow> s = NaN" by (cases s) auto
  have "spec_clamp q = NaN \<longleftrightarrow>
          s = NaN \<or> th = NaN \<or> (is_inf (f_mul (Fin 100) (f_neg s)) \<and> is_inf th)"
    unfolding spec_clamp_NaN f_div_NaN[OF q] f_mul_100_NaN n ..
  moreover have "spec_clamp q \<noteq> NaN \<longrightarrow>
          f_le (Fin 0) (spec_clamp q) \<and> f_le (spec_clamp q) (Fin 100)"
    using spec_clamp_range[of q] by (simp add: spec_clamp_NaN)
  ultimately show ?thesis using r q False by auto
qed

lemma load_demo: "load_artifacts fs_demo empty_cache = (Inr (), cache_demo)"
  by (simp add: load_artifacts_def fs_demo_def empty_cache_def cache_demo_def)

lemma load_boundary: "load_artifacts fs_boundary empty_cache = (Inr (), cache_boundary)"
  by (simp add: load_artifacts_def fs_boundary_def empty_cache_def cache_boundary_def)

lemma load_nan: "load_artifacts fs_nan empty_cache = (Inr (), cache_nan)"
  by (simp add: load_artifacts_def fs_nan_def empty_cache_def cache_nan_def)

theorem score_feature_vector_risk_witness:
  "score_feature_vector fs_demo empty_cache [Fin 0] = (Inr (Fin 1, Fin 50, False), cache_demo)
   \<and> f_div (f_mul (Fin 100) (Fin 1)) (Fin 2) = Inr (Fin 50)
   \<and> spec_clamp (Fin 50) = Fin 50
   \<and> f_le (Fin 0) (Fin 50) \<and> f_le (Fin 50) (Fin 100)"
proof -
  have 1: "load_artifacts fs_demo empty_cache = (Inr (), cache_demo)" by (rule load_demo)
  have 2: "cached_scaler cache_demo = Some (\<lambda>xs. Inr xs)" by (simp add: cache_demo_def)
  have 3: "(\<lambda>xs. Inr xs) [Fin 0] = (Inr [Fin 0] :: error + pyfloat list)" by simp
  have 4: "cached_model cache_demo = Some (\<lambda>xs. Inr (Fin (- 1)))" by (simp add: cache_demo_def)
  have 5: "(\<lambda>xs. Inr (Fin (- 1))) [Fin 0] = (Inr (Fin (- 1)) :: error + pyfloat)" by simp
  have 6: "cached_threshold cache_demo = Some (Fin 2)" by (simp add: cache_demo_def)
  have d: "f_div (f_mul (Fin 100) (Fin 1)) (Fin 2) = Inr (Fin 50)"
    by (simp add: overflow_def max_float_def)
  from score_feature_vector_risk[OF 1 2 3 4 5 6] d
  have "score_feature_vector fs_demo empty_cache [Fin 0]
          = (Inr (Fin 1, spec_clamp (Fin 50), False), cache_demo)"
    by auto
  moreover have "spec_clamp (Fin 50) = Fin 50" by (simp add: spec_clamp_def)
  ultimately show ?thesis using d by simp
qed

text \<open>
  The run behind C1: a model that answers NaN gives the risk NaN, which is neither at least 0
  nor at most 100.
\<close>

theorem score_feature_vector_risk_counterexample:
  "score_feature_vector fs_nan empty_cache [Fin 0] = (Inr (NaN, NaN, False), cache_nan)
   \<and> \<not> f_le (Fin 0) NaN \<and> \<not> f_le NaN (Fin 100)"
  unfolding score_feature_vector_def load_nan
  by (simp add: score_feature_vector_reads_def cache_nan_def)

text \<open>
  C8. For every artifact, cache and feature vector for which the load, the scaler and the
  model answer, \<open>score_feature_vector\<close> returns the flag \<open>raw \<ge> threshold\<close>, with the raw
  score the negated answer of the model on the scaled vector and the threshold the one of the
  loaded cache; a raw score equal to the threshold is flagged.
\<close>

theorem score_feature_vector_flagged:
  assumes "load_artifacts fs c = (Inr u, c1)"
    and "cached_scaler c1 = Some sc" and "sc fv = Inr Xs"
    and "cached_model c1 = Some m" and "m Xs = Inr s"
    and "cached_threshold c1 = Some th"
  shows "\<exists>risk fl. score_feature_vector fs c fv = (Inr (f_neg s, risk, fl), c1)
       \<and> fl = f_le th (f_neg s)
       \<and> (f_neg s = th \<and> th \<noteq> NaN \<longrightarrow> fl)"
proof -
  have b: "f_le th th" if "th \<noteq> NaN" using that by (cases th) auto
  show ?thesis
  proof (cases "f_le th (Fin 0)")
    case True
    have "score_feature_vector fs c fv = (Inr (f_neg s, Fin 0, f_le th (f_neg s)), c1)"
      unfolding score_feature_vector_def assms(1)
      by (simp add: score_feature_vector_reads_eq[OF assms(2-6)] True)
    with b show ?thesis by auto
  next
    case False
    from f_div_defined[OF False] obtain q where
      q: "f_div (f_mul (Fin 100) (f_neg s)) th = Inr q" by blast
    have "score_feature_vector fs c fv = (Inr (f_neg s, spec_clamp q, f_le th (f_neg s)), c1)"
      unfolding score_feature_vector_def assms(1)
      by (simp add: score_feature_vector_reads_eq[OF assms(2-6)] False q)
    with b show ?thesis by auto
  qed
qed

theorem score_feature_vector_flagged_witness:
  "load_artifacts fs_boundary empty_cache = (Inr (), cache_boundary)
   \<and> cached_threshold cache_boundary = Some (Fin 1)
   \<and> (\<exists>risk. score_feature_vector fs_boundary empty_cache [Fin 0]
                = (Inr (Fin 1, risk, True), cache_boundary))"
proof -
  have 1: "load_artifacts fs_boundary empty_cache = (Inr (), cache_boundary)"
    by (rule load_boundary)
  have 2: "cached_scaler cache_boundary = Some (\<lambda>xs. Inr xs)" by (simp add: cache_boundary_def)
  have 3: "(\<lambda>xs. Inr xs) [Fin 0] = (Inr [Fin 0] :: error + pyfloat list)" by simp
  have 4: "cached_model cache_boundary = Some (\<lambda>xs. Inr (Fin (- 1)))"
    by (simp add: cache_boundary_def)
  have 5: "(\<lambda>xs. Inr (Fin (- 1))) [Fin 0] = (Inr (Fin (- 1)) :: error + pyfloat)" by simp
  have 6: "cached_threshold cache_boundary = Some (Fin 1)" by (simp add: cache_boundary_def)
  from score_feature_vector_flagged[OF 1 2 3 4 5 6] 1 6 show ?thesis by auto
qed

text \<open>
  A call that nothing interrupts is the three reads taken from one and the same cache.
\<close>

lemma score_feature_vector_reads_same:
  assumes "load_artifacts fs c = (Inr u, c1)"
  shows "score_feature_vector fs c fv = (score_feature_vector_reads c1 c1 c1 fv, c1)"
  by (simp add: score_feature_vector_def assms)

text \<open>
  C9. A scoring call reads the cache three times, and \<open>reset_cache\<close> followed by the next
  \<open>load_artifacts\<close> replaces the cache in between two reads: the call that has read the old
  scaler and then reads the new model and the new threshold answers \<open>(1, 50, False)\<close>, which
  is neither the answer \<open>(1, 25, False)\<close> of the old artifact nor the answer
  \<open>(2, 100, True)\<close> of the new one; and a call that reads the model after \<open>reset_cache\<close> and
  before the next load fails on \<open>None\<close>. The replacement is not atomic for a reader.
\<close>

theorem score_feature_vector_hybrid_read:
  "load_artifacts fs_new (reset_cache cache_old) = (Inr (), cache_new)
   \<and> score_feature_vector fs_old cache_old [Fin 1] = (Inr (Fin 1, Fin 25, False), cache_old)
   \<and> score_feature_vector fs_new cache_new [Fin 1] = (Inr (Fin 2, Fin 100, True), cache_new)
   \<and> score_feature_vector_reads cache_old cache_new cache_new [Fin 1]
       = Inr (Fin 1, Fin 50, False)
   \<and> score_feature_vector_reads cache_old (reset_cache cache_old) (reset_cache cache_old) [Fin 1]
       = Inl NoneTypeError"
proof -
  have 1: "load_artifacts fs_new (reset_cache cache_old) = (Inr (), cache_new)"
    by (simp add: load_artifacts_def reset_cache_def fs_new_def cache_new_def cache_old_def)
  have o: "load_artifacts fs_old cache_old = (Inr (), cache_old)"
    by (simp add: load_artifacts_def cache_old_def)
  have n: "load_artifacts fs_new cache_new = (Inr (), cache_new)"
    by (simp add: load_artifacts_def cache_new_def)
  have 2: "score_feature_vector fs_old cache_old [Fin 1] = (Inr (Fin 1, Fin 25, False), cache_old)"
    unfolding score_feature_vector_def o
    by (simp add: score_feature_vector_reads_def cache_old_def overflow_def max_float_def)
  have 3: "score_feature_vector fs_new cache_new [Fin 1] = (Inr (Fin 2, Fin 100, True), cache_new)"
    unfolding score_feature_vector_def n
    by (simp add: score_feature_vector_reads_def cache_new_def model_new_def scaler_new_def
          overflow_def max_float_def)
  have 4: "score_feature_vector_reads cache_old cache_new cache_new [Fin 1]
             = Inr (Fin 1, Fin 50, False)"
    by (simp add: score_feature_vector_reads_def cache_new_def cache_old_def model_new_def
          overflow_def max_float_def)
  have 5: "score_feature_vector_reads cache_old (reset_cache cache_old) (reset_cache cache_old)
             [Fin 1] = Inl NoneTypeError"
    by (simp add: score_feature_vector_reads_def cache_old_def reset_cache_def)
  from 1 2 3 4 5 show ?thesis by blast
qed

subsection \<open>Feature computation\<close>

lemma length_filter_imp:
  "(\<And>x. P x \<Longrightarrow> Q x) \<Longrightarrow> length (filter P xs) \<le> length (filter Q xs)"
  by (induction xs) auto

lemma fold_add_amount:
  "fold (\<lambda>e acc. acc + amount e) xs a = a + sum_list (map amount xs)"
  by (induction xs arbitrary: a) (auto simp: algebra_simps)

lemma filter_through:
  assumes "filter P xs = filter P ys" and "\<And>x. Q x \<Longrightarrow> P x"
  shows "filter Q xs = filter Q ys"
proof -
  have "filter Q zs = filter Q (filter P zs)" for zs
    using assms(2) by (induction zs) auto
  then show ?thesis using assms(1) by metis
qed

lemma compute_features_overflow:
  "timestamp ev < timedelta_hours 1 \<Longrightarrow> compute_features rnd d ev = Inl OverflowError"
  by (simp add: compute_features_def datetime_sub_def timedelta_hours_def timedelta_minutes_def Let_def)

lemma compute_features_Inr_time:
  assumes "compute_features rnd d ev = Inr f"
  shows "timedelta_hours 1 \<le> timestamp ev"
proof (rule ccontr)
  assume "\<not> timedelta_hours 1 \<le> timestamp ev"
  then have "compute_features rnd d ev = Inl OverflowError"
    by (simp add: compute_features_overflow)
  with assms show False by simp
qed

lemma datetime_sub_5m:
  "timedelta_hours 1 \<le> t \<Longrightarrow> datetime_sub t (timedelta_minutes 5) = Inr (t - timedelta_minutes 5)"
  by (simp add: datetime_sub_def timedelta_hours_def timedelta_minutes_def)

lemma datetime_sub_1h:
  "timedelta_hours 1 \<le> t \<Longrightarrow> datetime_sub t (timedelta_hours 1) = Inr (t - timedelta_hours 1)"
  by (simp add: datetime_sub_def)

lemma compute_features_tx_count_5m:
  assumes "compute_features rnd d ev = Inr f"
  shows "tx_count_5m f = int (length (filter (spec_in_window ev (timedelta_minutes 5)) (events d)))"
proof -
  note t = compute_features_Inr_time[OF assms]
  from assms show ?thesis
    unfolding compute_features_def Let_def datetime_sub_5m[OF t] datetime_sub_1h[OF t]
    by (auto simp: spec_in_window_def[abs_def] split: sum.splits)
qed

lemma compute_features_tx_count_1h:
  assumes "compute_features rnd d ev = Inr f"
  shows "tx_count_1h f = int (length (filter (spec_in_window ev (timedelta_hours 1)) (events d)))"
proof -
  note t = compute_features_Inr_time[OF assms]
  from assms show ?thesis
    unfolding compute_features_def Let_def datetime_sub_5m[OF t] datetime_sub_1h[OF t]
    by (auto simp: spec_in_window_def[abs_def] split: sum.splits)
qed

lemma compute_features_spend_1h:
  assumes "compute_features rnd d ev = Inr f"
  shows "spend_1h f = sum_list (map amount (filter (spec_in_window ev (timedelta_hours 1)) (events d)))"
proof -
  note t = compute_features_Inr_time[OF assms]
  from assms show ?thesis
    unfolding compute_features_def Let_def datetime_sub_5m[OF t] datetime_sub_1h[OF t]
    by (auto simp: spec_in_window_def[abs_def] fold_add_amount split: sum.splits)
qed

lemma compute_features_cong:
  assumes "filter (spec_strictly_before ev) (events d') = filter (spec_strictly_before ev) (events d)"
  shows "compute_features rnd d' ev = compute_features rnd d ev"
proof -
  have q: "filter Q (events d') = filter Q (events d)"
    if "\<And>e. Q e \<Longrightarrow> spec_strictly_before ev e" for Q
    using filter_through[OF assms] that by blast
  have 1: "filter (\<lambda>e. user_id e = user_id ev \<and> timestamp e \<ge> w \<and> timestamp e < timestamp ev) (events d')
         = filter (\<lambda>e. user_id e = user_id ev \<and> timestamp e \<ge> w \<and> timestamp e < timestamp ev) (events d)" for w
    by (rule q) (simp add: spec_strictly_before_def)
  have 2: "filter (\<lambda>e. user_id e = user_id ev \<and> timestamp e < timestamp ev) (events d')
         = filter (\<lambda>e. user_id e = user_id ev \<and> timestamp e < timestamp ev) (events d)"
    by (rule q) (simp add: spec_strictly_before_def)
  have 3: "filter (\<lambda>e. user_id e = user_id ev \<and> merchant_id e = merchant_id ev \<and> timestamp e < timestamp ev) (events d')
         = filter (\<lambda>e. user_id e = user_id ev \<and> merchant_id e = merchant_id ev \<and> timestamp e < timestamp ev) (events d)"
    by (rule q) (simp add: spec_strictly_before_def)
  have 4: "filter (\<lambda>e. user_id e = user_id ev \<and> device_id e = device_id ev \<and> timestamp e < timestamp ev) (events d')
         = filter (\<lambda>e. user_id e = user_id ev \<and> device_id e = device_id ev \<and> timestamp e < timestamp ev) (events d)"
    by (rule q) (simp add: spec_strictly_before_def)
  have 5: "filter (\<lambda>e. user_id e = user_id ev \<and> ip e = ip ev \<and> timestamp e < timestamp ev) (events d')
         = filter (\<lambda>e. user_id e = user_id ev \<and> ip e = ip ev \<and> timestamp e < timestamp ev) (events d)"
    by (rule q) (simp add: spec_strictly_before_def)
  show ?thesis
    unfolding compute_features_def Let_def 1 2 3 4 5 ..
qed

lemma compute_features_self:
  "compute_features rnd (d\<lparr>events := events d @ [ev]\<rparr>) ev = compute_features rnd d ev"
  by (rule compute_features_cong) (simp add: spec_strictly_before_def)

lemma tx_count_le:
  assumes "compute_features rnd d ev = Inr f"
  shows "tx_count_5m f \<le> tx_count_1h f"
  unfolding compute_features_tx_count_5m[OF assms] compute_features_tx_count_1h[OF assms]
  by (auto intro!: length_filter_imp simp: spec_in_window_def timedelta_minutes_def timedelta_hours_def)

text \<open>
  In exact arithmetic the argument of \<open>sqrt\<close> and \<open>asin\<close> lies in \<open>[0, 1]\<close> for all
  coordinates, so \<open>haversine_km\<close> returns there; it raises as soon as rounding takes the
  argument out of that interval.
\<close>

lemma cos_mult_half:
  fixes p q :: real
  shows "cos p * cos q = (cos ((p + q) / 2))\<^sup>2 - (sin ((q - p) / 2))\<^sup>2"
proof -
  have h1: "2 * ((p + q) / 2) = p + q" and h2: "2 * ((q - p) / 2) = q - p"
    by simp_all
  have 1: "cos (p + q) = 2 * (cos ((p + q) / 2))\<^sup>2 - 1"
    using cos_double_cos[of "(p + q) / 2"] unfolding h1 .
  have 2: "cos (q - p) = 1 - 2 * (sin ((q - p) / 2))\<^sup>2"
    using cos_double_sin[of "(q - p) / 2"] unfolding h2 .
  have "cos p * cos q = (cos (q - p) + cos (p + q)) / 2"
    by (simp add: cos_add cos_diff)
  then show ?thesis unfolding 1 2 by simp
qed

lemma haversine_a_range:
  "0 \<le> haversine_a lat1 lon1 lat2 lon2 \<and> haversine_a lat1 lon1 lat2 lon2 \<le> 1"
proof -
  define p where "p = radians lat1"
  define q where "q = radians lat2"
  define Y where "Y = (sin (radians (lon2 - lon1) / 2))\<^sup>2"
  define X where "X = (sin ((q - p) / 2))\<^sup>2"
  define C where "C = (cos ((p + q) / 2))\<^sup>2"
  have d: "radians (lat2 - lat1) = q - p"
    by (simp add: radians_def p_def q_def algebra_simps diff_divide_distrib)
  have a: "haversine_a lat1 lon1 lat2 lon2 = X * (1 - Y) + C * Y"
    unfolding haversine_a_def Let_def d p_def[symmetric] q_def[symmetric] cos_mult_half
      Y_def[symmetric] X_def[symmetric] C_def[symmetric]
    by (simp add: algebra_simps)
  have Y: "0 \<le> Y" "Y \<le> 1" unfolding Y_def by (simp_all add: abs_square_le_1)
  have X: "0 \<le> X" "X \<le> 1" unfolding X_def by (simp_all add: abs_square_le_1)
  have C: "0 \<le> C" "C \<le> 1" unfolding C_def by (simp_all add: abs_square_le_1)
  have "0 \<le> X * (1 - Y) + C * Y" using X Y C by simp
  moreover have "X * (1 - Y) \<le> 1 * (1 - Y)" using X Y by (intro mult_right_mono) auto
  moreover have "C * Y \<le> 1 * Y" using C Y by (intro mult_right_mono) auto
  ultimately show ?thesis unfolding a by simp
qed

lemma haversine_km_exact:
  "haversine_km (\<lambda>x. x) lat1 lon1 lat2 lon2 =
     Inr (6371 * (2 * arcsin (sqrt (haversine_a lat1 lon1 lat2 lon2))))"
proof -
  note r = haversine_a_range[of lat1 lon1 lat2 lon2]
  from r have "sqrt (haversine_a lat1 lon1 lat2 lon2) \<le> 1" by simp
  with r show ?thesis by (simp add: haversine_km_def Let_def)
qed

lemma haversine_km_raises:
  assumes "rnd (haversine_a lat1 lon1 lat2 lon2) < 0 \<or> 1 < rnd (haversine_a lat1 lon1 lat2 lon2)"
  shows "haversine_km rnd lat1 lon1 lat2 lon2 = Inl ValueError"
  using assms by (auto simp: haversine_km_def Let_def)

lemma haversine_km_same: "haversine_km (\<lambda>x. x) la lo la lo = Inr 0"
  by (simp add: haversine_km_def haversine_a_def radians_def)

lemma compute_features_demo: "compute_features (\<lambda>x. x) db_demo ev_in = Inr f_demo"
  by (simp add: compute_features_def db_demo_def ev_in_def ev_demo_def f_demo_def Let_def
        datetime_sub_def timedelta_minutes_def timedelta_hours_def first_def
        order_by_timestamp_desc_def haversine_km_same total_seconds_def hour_def weekday_def)

text \<open>
  C2. For an incoming event with timestamp \<open>t\<close>, the two counts and the sum of
  \<open>compute_features\<close> range over the events of the same user in the half-open windows
  \<open>[t - 5m, t)\<close> and \<open>[t - 1h, t)\<close>, and the whole feature vector depends only on the events of
  that user strictly before \<open>t\<close>: two stores that agree on those give the same features. In
  particular the event itself, already inserted, is not counted.
\<close>

theorem compute_features_strictly_before:
  assumes "compute_features rnd d ev = Inr f"
  shows "tx_count_5m f = int (length (filter (spec_in_window ev (timedelta_minutes 5)) (events d)))
       \<and> tx_count_1h f = int (length (filter (spec_in_window ev (timedelta_hours 1)) (events d)))
       \<and> spend_1h f = sum_list (map amount (filter (spec_in_window ev (timedelta_hours 1)) (events d)))
       \<and> (\<forall>d'. filter (spec_strictly_before ev) (events d') = filter (spec_strictly_before ev) (events d)
              \<longrightarrow> compute_features rnd d' ev = Inr f)
       \<and> compute_features rnd (d\<lparr>events := events d @ [ev]\<rparr>) ev = Inr f"
  using compute_features_tx_count_5m[OF assms] compute_features_tx_count_1h[OF assms]
    compute_features_spend_1h[OF assms] compute_features_cong[of ev _ d rnd]
    compute_features_self[of rnd d ev] assms
  by simp

theorem compute_features_strictly_before_witness:
  "compute_features (\<lambda>x. x) db_demo ev_in = Inr f_demo
   \<and> tx_count_5m f_demo = 1 \<and> tx_count_1h f_demo = 2 \<and> spend_1h f_demo = 30
   \<and> length (filter (spec_in_window ev_in (timedelta_minutes 5)) (events db_demo)) = 1
   \<and> compute_features (\<lambda>x. x) (db_demo\<lparr>events := events db_demo @ [ev_in]\<rparr>) ev_in = Inr f_demo"
proof -
  have h: "compute_features (\<lambda>x. x) db_demo ev_in = Inr f_demo"
    by (rule compute_features_demo)
  have f: "tx_count_5m f_demo = 1 \<and> tx_count_1h f_demo = 2 \<and> spend_1h f_demo = 30"
    by (simp add: f_demo_def)
  from compute_features_strictly_before[OF h] h f show ?thesis by simp
qed

text \<open>
  C10. Whenever \<open>compute_features\<close> returns a feature vector, its \<open>tx_count_5m\<close> is at most
  its \<open>tx_count_1h\<close>.
\<close>

theorem tx_count_5m_le_tx_count_1h:
  assumes "compute_features rnd d ev = Inr f"
  shows "tx_count_5m f \<le> tx_count_1h f"
  using assms by (rule tx_count_le)

theorem tx_count_5m_le_tx_count_1h_witness:
  "compute_features (\<lambda>x. x) db_demo ev_in = Inr f_demo
   \<and> tx_count_5m f_demo \<le> tx_count_1h f_demo"
proof -
  have h: "compute_features (\<lambda>x. x) db_demo ev_in = Inr f_demo"
    by (rule compute_features_demo)
  from tx_count_5m_le_tx_count_1h[OF h] h show ?thesis by blast
qed

subsection \<open>Reasons\<close>

lemma sorted_wrt_filter_iff:
  "sorted_wrt P (filter Q xs) \<longleftrightarrow> sorted_wrt (\<lambda>a b. Q a \<and> Q b \<longrightarrow> P a b) xs"
  by (induction xs) auto

lemma sorted_wrt_conj:
  "sorted_wrt (\<lambda>a b. P a b \<and> Q a b) xs \<longleftrightarrow> sorted_wrt P xs \<and> sorted_wrt Q xs"
  by (induction xs) auto

lemma sorted_wrt_all:
  "(\<forall>k. sorted_wrt (R k) xs) \<longleftrightarrow> sorted_wrt (\<lambda>a b. \<forall>k. R k a b) xs"
  by (induction xs) auto

lemma sort_key_stable_wrt:
  assumes "sorted_wrt P xs"
  shows "sorted_wrt (\<lambda>a b. f a = f b \<longrightarrow> P a b) (sort_key f xs)"
proof -
  have "sorted_wrt (\<lambda>a b. f a = k \<and> f b = k \<longrightarrow> P a b) (sort_key f xs)" for k
  proof -
    have "sorted_wrt P (filter (\<lambda>y. f y = k) xs)"
      using assms by (rule sorted_wrt_filter)
    then have "sorted_wrt P (filter (\<lambda>y. f y = k) (sort_key f xs))"
      by (simp only: sort_key_stable)
    then show ?thesis by (simp add: sorted_wrt_filter_iff)
  qed
  then have "sorted_wrt (\<lambda>a b. \<forall>k. f a = k \<and> f b = k \<longrightarrow> P a b) (sort_key f xs)"
    using sorted_wrt_all[of "\<lambda>k a b. f a = k \<and> f b = k \<longrightarrow> P a b" "sort_key f xs"] by blast
  then show ?thesis by (rule sorted_wrt_mono_rel[rotated]) auto
qed

lemma ball_set_if:
  "(\<forall>y\<in>set (if c then xs else []). P y) \<longleftrightarrow> (c \<longrightarrow> (\<forall>y\<in>set xs. P y))"
  by auto

lemma sorted_wrt_if:
  "sorted_wrt P (if c then xs else []) \<longleftrightarrow> (c \<longrightarrow> sorted_wrt P xs)"
  by simp

lemma map_if:
  "map f (if c then xs else []) = (if c then map f xs else [])"
  by simp

lemma if_if_Nil:
  "(if a then (if b then xs else []) else []) = (if a \<and> b then xs else [])"
  by simp

lemma filter_Cons_app:
  "filter P (x # xs) = (if P x then [x] else []) @ filter P xs"
  by simp

lemma firing_reasons_index_sorted:
  "sorted_wrt (\<lambda>a b. spec_rule_index (reason a) < spec_rule_index (reason b)) (firing_reasons d ev fr)"
  unfolding firing_reasons_def Let_def
  by (simp add: sorted_wrt_append ball_Un ball_set_if sorted_wrt_if split del: if_split)

lemma firing_reasons_kinds:
  "map reason (firing_reasons d ev fr) = filter (spec_rule_fires d ev fr) spec_rule_order"
  unfolding firing_reasons_def Let_def spec_rule_order_def
  by (simp add: map_if if_if_Nil filter_Cons_app spec_amount_spike_def
           split del: if_split del: filter.simps cong: if_cong)

lemma firing_reasons_severity:
  "\<forall>r\<in>set (firing_reasons d ev fr). severity r = spec_rule_severity (reason r)"
  unfolding firing_reasons_def Let_def
  by (simp add: ball_Un ball_set_if split del: if_split)

lemma build_reasons_sorted:
  "sorted_wrt spec_ranks_before (sort_key (\<lambda>r. - severity r) (firing_reasons d ev fr))"
proof -
  let ?f = "\<lambda>r::Reason. - severity r"
  let ?ys = "sort_key ?f (firing_reasons d ev fr)"
  have "sorted (map ?f ?ys)" by (rule sorted_sort_key)
  then have 1: "sorted_wrt (\<lambda>a b. ?f a \<le> ?f b) ?ys"
    by (simp add: sorted_map)
  have 2: "sorted_wrt (\<lambda>a b. ?f a = ?f b \<longrightarrow>
              spec_rule_index (reason a) < spec_rule_index (reason b)) ?ys"
    by (rule sort_key_stable_wrt[OF firing_reasons_index_sorted])
  from 1 2 have "sorted_wrt (\<lambda>a b. ?f a \<le> ?f b \<and> (?f a = ?f b \<longrightarrow>
              spec_rule_index (reason a) < spec_rule_index (reason b))) ?ys"
    by (simp add: sorted_wrt_conj)
  then show ?thesis
    by (rule sorted_wrt_mono_rel[rotated]) (auto simp: spec_ranks_before_def)
qed

lemma take_drop_most_recent:
  assumes "sorted_wrt (\<lambda>a b. timestamp a \<ge> timestamp b) ys" and "mset ys = mset before"
  shows "spec_most_recent n before (take n ys)"
proof -
  have l: "length ys = length before"
    using assms(2) by (metis size_mset)
  have m: "mset before = mset (take n ys) + mset (drop n ys)"
    using assms(2) by (metis append_take_drop_id mset_append)
  have s: "sorted_wrt (\<lambda>a b. timestamp a \<ge> timestamp b) (take n ys @ drop n ys)"
    using assms(1) by simp
  have "\<forall>s\<in>set (take n ys). \<forall>e\<in>set (drop n ys). timestamp e \<le> timestamp s"
    using s unfolding sorted_wrt_append by blast
  moreover have "mset before - mset (take n ys) = mset (drop n ys)"
    using m by simp
  moreover have "sorted_wrt (\<lambda>a b. timestamp a \<ge> timestamp b) (take n ys)"
    using assms(1) by (rule sorted_wrt_take)
  ultimately show ?thesis
    unfolding spec_most_recent_def using l m by (auto simp: min.commute)
qed

lemma prior_amounts_most_recent:
  "\<exists>sel. prior_amounts d ev = map amount sel
        \<and> spec_most_recent 30 (filter (spec_strictly_before ev) (events d)) sel"
proof -
  let ?before = "filter (spec_strictly_before ev) (events d)"
  let ?ys = "order_by_timestamp_desc ?before"
  have "sorted (map timestamp (sort_key timestamp ?before))"
    by (rule sorted_sort_key)
  then have "sorted_wrt (\<lambda>a b. timestamp a \<ge> timestamp b) ?ys"
    by (simp add: order_by_timestamp_desc_def sorted_map sorted_wrt_rev)
  moreover have "mset ?ys = mset ?before"
    by (simp add: order_by_timestamp_desc_def)
  ultimately have "spec_most_recent 30 ?before (take 30 ?ys)"
    by (rule take_drop_most_recent)
  moreover have "prior_amounts d ev = map amount (take 30 ?ys)"
    by (simp add: prior_amounts_def spec_strictly_before_def[abs_def])
  ultimately show ?thesis by blast
qed

lemma amount_spike_fires:
  "(\<exists>r\<in>set (firing_reasons d ev fr). reason r = amount_spike)
     \<longleftrightarrow> spec_amount_spike (prior_amounts d ev) (amount ev)"
proof -
  have "(\<exists>r\<in>set (firing_reasons d ev fr). reason r = amount_spike)
        \<longleftrightarrow> amount_spike \<in> set (map reason (firing_reasons d ev fr))"
    by (simp add: image_iff) metis
  also have "\<dots> \<longleftrightarrow> spec_amount_spike (prior_amounts d ev) (amount ev)"
    unfolding firing_reasons_kinds by (simp add: spec_rule_order_def)
  finally show ?thesis .
qed

lemma amount_spike_severity:
  "\<forall>r\<in>set (firing_reasons d ev fr). reason r = amount_spike \<longrightarrow> severity r = 75"
  using firing_reasons_severity[of d ev fr] by auto

lemma prior_amounts_spike:
  "prior_amounts db_spike ev_spike = [50, 60, 40, 70, 30, 80, 20, 90, 10, 50]"
  by (simp add: prior_amounts_def db_spike_def ev_spike_def ev_demo_def order_by_timestamp_desc_def)

lemma spec_amount_spike_demo:
  "spec_amount_spike (prior_amounts db_spike ev_spike) (amount ev_spike)"
  unfolding prior_amounts_spike
  by (simp add: spec_amount_spike_def ev_spike_def ev_demo_def)

lemma prior_amounts_empty: "prior_amounts empty_db ev = []"
  by (simp add: prior_amounts_def empty_db_def order_by_timestamp_desc_def)

lemma build_reasons_demo:
  "map reason (build_reasons empty_db ev_in fr_demo) = [high_velocity_5m, new_device, new_ip]"
  by (simp add: build_reasons_def firing_reasons_def prior_amounts_empty fr_demo_def)

text \<open>
  C3. \<open>build_reasons\<close> returns at most 3 reasons. The rules that fire are those of the fixed
  list whose condition holds, in the order of that list, each with its severity; the result is
  the first three of them once sorted by severity descending, rules of equal severity in the
  order of the list.
\<close>

theorem build_reasons_ranked:
  "length (build_reasons d ev fr) \<le> 3
   \<and> map reason (firing_reasons d ev fr) = filter (spec_rule_fires d ev fr) spec_rule_order
   \<and> (\<forall>r\<in>set (firing_reasons d ev fr). severity r = spec_rule_severity (reason r))
   \<and> (\<exists>full. mset full = mset (firing_reasons d ev fr)
             \<and> sorted_wrt spec_ranks_before full
             \<and> build_reasons d ev fr = take 3 full)"
proof -
  let ?full = "sort_key (\<lambda>r. - severity r) (firing_reasons d ev fr)"
  have "mset ?full = mset (firing_reasons d ev fr)" by simp
  moreover have "sorted_wrt spec_ranks_before ?full" by (rule build_reasons_sorted)
  moreover have "build_reasons d ev fr = take 3 ?full" by (simp add: build_reasons_def)
  ultimately have "\<exists>full. mset full = mset (firing_reasons d ev fr)
             \<and> sorted_wrt spec_ranks_before full
             \<and> build_reasons d ev fr = take 3 full" by blast
  moreover have "length (build_reasons d ev fr) \<le> 3" by (simp add: build_reasons_def)
  ultimately show ?thesis
    using firing_reasons_kinds[of d ev fr] firing_reasons_severity[of d ev fr] by blast
qed

theorem build_reasons_ranked_witness:
  "length (build_reasons empty_db ev_in fr_demo) \<le> 3
   \<and> map reason (firing_reasons empty_db ev_in fr_demo)
       = filter (spec_rule_fires empty_db ev_in fr_demo) spec_rule_order
   \<and> map reason (build_reasons empty_db ev_in fr_demo) = [high_velocity_5m, new_device, new_ip]"
  using build_reasons_ranked[of empty_db ev_in fr_demo] build_reasons_demo by blast

text \<open>
  C4. The rule \<open>amount_spike\<close> fires exactly when the sample has at least 10 amounts, the
  element at index \<open>n div 2\<close> of the sorted sample is positive and the amount of the event is
  at least 4 times that element; it fires with severity 75; and the sample is the amounts of
  the 30 most recent events of the user strictly before the event, or of all of them when there
  are fewer.
\<close>

theorem amount_spike_fires_iff:
  "((\<exists>r\<in>set (firing_reasons d ev fr). reason r = amount_spike)
       \<longleftrightarrow> spec_amount_spike (prior_amounts d ev) (amount ev))
   \<and> (\<forall>r\<in>set (firing_reasons d ev fr). reason r = amount_spike \<longrightarrow> severity r = 75)
   \<and> (\<exists>sel. prior_amounts d ev = map amount sel
           \<and> spec_most_recent 30 (filter (spec_strictly_before ev) (events d)) sel)"
  using amount_spike_fires[of d ev fr] amount_spike_severity[of d ev fr]
    prior_amounts_most_recent[of d ev]
  by blast

theorem amount_spike_fires_iff_witness:
  "spec_amount_spike (prior_amounts db_spike ev_spike) (amount ev_spike)
   \<and> (\<exists>r\<in>set (firing_reasons db_spike ev_spike fr_demo). reason r = amount_spike \<and> severity r = 75)"
  using amount_spike_fires_iff[of db_spike ev_spike fr_demo] spec_amount_spike_demo by blast

text \<open>A rule that fires is not always returned: three rules of higher severity hide it.\<close>

lemma amount_spike_not_returned:
  "amount_spike \<notin> set (map reason (build_reasons db_spike ev_spike fr_demo))"
  unfolding build_reasons_def firing_reasons_def prior_amounts_spike
  by (simp add: fr_demo_def ev_spike_def ev_demo_def)

subsection \<open>Orchestration\<close>

lemma fold_max_ge: "fold max xs (a::int) \<ge> a"
proof (induction xs arbitrary: a)
  case Nil then show ?case by simp
next
  case (Cons y ys)
  have "a \<le> max y a" by simp
  also have "max y a \<le> fold max ys (max y a)" by (rule Cons.IH)
  finally show ?case by simp
qed

lemma fold_max_mem: "x \<in> set xs \<Longrightarrow> x \<le> fold max xs (a::int)"
proof (induction xs arbitrary: a)
  case Nil then show ?case by simp
next
  case (Cons y ys)
  show ?case
  proof (cases "x = y")
    case True
    have "max y a \<le> fold max ys (max y a)" by (rule fold_max_ge)
    with True show ?thesis by simp
  next
    case False
    with Cons show ?thesis by simp
  qed
qed

lemma next_id_fresh: "next_id ids \<notin> set ids"
proof
  assume "next_id ids \<in> set ids"
  then have "next_id ids \<le> fold max ids 0" by (rule fold_max_mem)
  then show False by (simp add: next_id_def)
qed


lemma upsert_existing:
  assumes "List.find (\<lambda>e. event_id e = event_id_req req) (events d) = Some ex"
  shows "upsert_event_and_features rnd isoparse d req =
           (case List.find (\<lambda>f. event_id_fk f = id_ev ex) (features d) of
              None \<Rightarrow> (Inl (HTTPException 500 ''event exists but features missing''), d)
            | Some fr \<Rightarrow> (Inr (ex, fr), d))"
  using assms by (simp add: upsert_event_and_features_def)

lemma upsert_new:
  assumes "List.find (\<lambda>e. event_id e = event_id_req req) (events d) = None"
    and "upsert_event_and_features rnd isoparse d req = (Inr (ev, fr), d')"
  shows "\<exists>ts feats. isoparse (timestamp_req req) = Some ts
         \<and> id_ev ev = next_id (map id_ev (events d))
         \<and> event_id ev = event_id_req req
         \<and> timestamp ev = ts
         \<and> compute_features rnd (d\<lparr>events := events d @ [ev]\<rparr>) ev = Inr feats
         \<and> event_id_fk fr = id_ev ev
         \<and> event_id_fk fr \<notin> set (map event_id_fk (features d))
         \<and> d' = d\<lparr>events := events d @ [ev], features := features d @ [fr]\<rparr>"
  using assms
  by (auto simp: upsert_event_and_features_def Let_def add_event_def add_feature_def
           split: option.splits sum.splits if_splits)

text \<open>
  The feature row stored for a new event holds the features of the event over the store as it
  was before the event was inserted.
\<close>

lemma upsert_new_features:
  assumes "List.find (\<lambda>e. event_id e = event_id_req req) (events d) = None"
    and "upsert_event_and_features rnd isoparse d req = (Inr (ev, fr), d')"
  shows "\<exists>feats. compute_features rnd d ev = Inr feats
         \<and> log_amount fr = log_amount feats
         \<and> tx_count_5m fr = tx_count_5m feats
         \<and> tx_count_1h fr = tx_count_1h feats
         \<and> spend_1h fr = spend_1h feats
         \<and> is_new_merchant fr = is_new_merchant feats
         \<and> is_new_device fr = is_new_device feats
         \<and> is_new_ip fr = is_new_ip feats
         \<and> distance_from_last_km fr = distance_from_last_km feats
         \<and> speed_kmph fr = speed_kmph feats
         \<and> hour_of_day fr = hour_of_day feats
         \<and> day_of_week fr = day_of_week feats"
  using assms
  by (auto simp: upsert_event_and_features_def Let_def add_event_def add_feature_def
           compute_features_self
           split: option.splits sum.splits if_splits)



lemma compute_features_ev1:
  "compute_features (\<lambda>x. x) \<lparr>events = [ev1], features = [], scores = []\<rparr> ev1 =
     Inr \<lparr>log_amount = 0, tx_count_5m = 0, tx_count_1h = 0, spend_1h = 0,
           is_new_merchant = 1, is_new_device = 1, is_new_ip = 1,
           distance_from_last_km = 0, speed_kmph = 0, hour_of_day = 0, day_of_week = 1\<rparr>"
  by (simp add: compute_features_def ev1_def Let_def datetime_sub_def timedelta_minutes_def
        timedelta_hours_def first_def order_by_timestamp_desc_def hour_def weekday_def)

lemma ev1_req: "\<lparr>id_ev = next_id (map id_ev (events empty_db)),
                         event_id = event_id_req req_demo,
                         user_id = user_id_req req_demo,
                         merchant_id = merchant_id_req req_demo,
                         amount = amount_req req_demo,
                         currency = currency_req req_demo,
                         timestamp = 86400000000,
                         lat = lat_req req_demo,
                         lon = lon_req req_demo,
                         device_id = device_id_req req_demo,
                         ip = ip_req req_demo,
                         channel = channel_req req_demo\<rparr> = ev1"
  by (simp add: ev1_def req_demo_def empty_db_def next_id_def)

lemma upsert_demo:
  "upsert_event_and_features (\<lambda>x. x) isoparse_demo empty_db req_demo = (Inr (ev1, fr1), db1)"
proof -
  have 1: "List.find (\<lambda>e. event_id e = event_id_req req_demo) (events empty_db) = None"
    by (simp add: empty_db_def)
  have 2: "isoparse_demo (timestamp_req req_demo) = Some 86400000000"
    by (simp add: isoparse_demo_def req_demo_def)
  have 3: "add_event empty_db ev1 = Inr \<lparr>events = [ev1], features = [], scores = []\<rparr>"
    by (simp add: add_event_def empty_db_def)
  show ?thesis
    unfolding upsert_event_and_features_def 1 2 option.case Let_def ev1_req 3 sum.case
      compute_features_ev1
    by (simp add: add_feature_def next_id_def fr1_def db1_def ev1_def)
qed

lemma feature_columns_missing:
  assumes "cached_model c = None"
    and "model_file fs = None \<or> scaler_file fs = None \<or> thresh_file fs = None"
  shows "feature_columns fs c = (Inl ArtifactsMissing, c)"
  by (simp add: feature_columns_def load_artifacts_missing[OF assms])

lemma score_feature_vector_missing:
  assumes "cached_model c = None"
    and "model_file fs = None \<or> scaler_file fs = None \<or> thresh_file fs = None"
  shows "score_feature_vector fs c fv = (Inl ArtifactsMissing, c)"
  by (simp add: score_feature_vector_def load_artifacts_missing[OF assms])

lemma score_missing:
  assumes "cached_model c = None"
    and "model_file fs = None \<or> scaler_file fs = None \<or> thresh_file fs = None"
  shows "score rnd isoparse fs now d c req =
           (case upsert_event_and_features rnd isoparse d req of
              (Inl e, d1) \<Rightarrow> (Inl e, d1, c)
            | (Inr p, d1) \<Rightarrow> (Inl ArtifactsMissing, d1, c))"
  by (simp add: score_def feature_columns_missing[OF assms] split: prod.splits sum.splits)

text \<open>
  C7. While nothing is cached and one of the three artifact files is absent, every call of
  \<open>score_feature_vector\<close> and of \<open>feature_columns\<close> fails with the missing-artifacts error
  and leaves the cache as it was, and \<open>/score\<close> surfaces that error instead of a score;
  the event and its features are stored by \<open>upsert_event_and_features\<close> all the same.
\<close>

theorem artifacts_missing_fails:
  assumes "cached_model c = None"
    and "model_file fs = None \<or> scaler_file fs = None \<or> thresh_file fs = None"
  shows "score_feature_vector fs c fv = (Inl ArtifactsMissing, c)
       \<and> feature_columns fs c = (Inl ArtifactsMissing, c)
       \<and> score rnd isoparse fs now d c req =
           (case upsert_event_and_features rnd isoparse d req of
              (Inl e, d1) \<Rightarrow> (Inl e, d1, c)
            | (Inr p, d1) \<Rightarrow> (Inl ArtifactsMissing, d1, c))"
  using score_feature_vector_missing[OF assms] feature_columns_missing[OF assms]
    score_missing[OF assms]
  by simp

theorem artifacts_missing_fails_witness:
  "cached_model empty_cache = None
   \<and> (model_file fs_none = None \<or> scaler_file fs_none = None \<or> thresh_file fs_none = None)
   \<and> score_feature_vector fs_none empty_cache [Fin 0] = (Inl ArtifactsMissing, empty_cache)
   \<and> feature_columns fs_none empty_cache = (Inl ArtifactsMissing, empty_cache)"
proof -
  have 1: "cached_model empty_cache = None" by (simp add: empty_cache_def)
  have 2: "model_file fs_none = None \<or> scaler_file fs_none = None \<or> thresh_file fs_none = None"
    by (simp add: fs_none_def)
  from artifacts_missing_fails[OF 1 2] 1 2 show ?thesis by blast
qed

lemma score_demo:
  "score (\<lambda>x. x) isoparse_demo fs_none now empty_db empty_cache req_demo =
     (Inl ArtifactsMissing, db1, empty_cache)"
proof -
  have 1: "cached_model empty_cache = None" by (simp add: empty_cache_def)
  have 2: "model_file fs_none = None \<or> scaler_file fs_none = None \<or> thresh_file fs_none = None"
    by (simp add: fs_none_def)
  show ?thesis
    by (simp add: score_missing[OF 1 2] upsert_demo)
qed

text \<open>
  The run behind C6: with no artifact published, \<open>/score\<close> on an empty store fails in
  scoring, and the event row and its feature row are in the store afterwards.
\<close>

theorem score_not_atomic_counterexample:
  "fst (score (\<lambda>x. x) isoparse_demo fs_none 0 empty_db empty_cache req_demo) = Inl ArtifactsMissing
   \<and> features (fst (snd (score (\<lambda>x. x) isoparse_demo fs_none 0 empty_db empty_cache req_demo))) = [fr1]
   \<and> events (fst (snd (score (\<lambda>x. x) isoparse_demo fs_none 0 empty_db empty_cache req_demo))) = [ev1]
   \<and> event_id_fk fr1 = id_ev ev1
   \<and> features empty_db = []"
  unfolding score_demo
  by (simp add: db1_def fr1_def ev1_def empty_db_def)

lemma upsert_score_row_events:
  "events (upsert_score_row d ev a r f rs now) = events d
   \<and> features (upsert_score_row d ev a r f rs now) = features d"
  by (simp add: upsert_score_row_def split: option.splits)

lemma upsert_score_row_stored:
  "\<exists>sr\<in>set (scores (upsert_score_row d ev a r f rs now)).
      event_id_fk_sr sr = id_ev ev \<and> anomaly_score_sr sr = a \<and> risk_score_sr sr = r
    \<and> flagged_sr sr = (if f then 1 else 0) \<and> reasons_json sr = rs \<and> created_at sr = now"
proof (cases "List.find (\<lambda>s. event_id_fk_sr s = id_ev ev) (scores d)")
  case None
  then show ?thesis by (simp add: upsert_score_row_def)
next
  case (Some ex)
  then have "ex \<in> set (scores d)" and "event_id_fk_sr ex = id_ev ev"
    by (auto simp: find_Some_iff)
  then have "ex\<lparr>anomaly_score_sr := a, risk_score_sr := r, flagged_sr := (if f then 1 else 0),
                reasons_json := rs, created_at := now\<rparr>
             \<in> set (scores (upsert_score_row d ev a r f rs now))"
    using Some by (force simp: upsert_score_row_def image_iff)
  moreover have "event_id_fk_sr (ex\<lparr>anomaly_score_sr := a, risk_score_sr := r,
                flagged_sr := (if f then 1 else 0), reasons_json := rs, created_at := now\<rparr>)
                 = id_ev ev"
    using \<open>event_id_fk_sr ex = id_ev ev\<close> by simp
  ultimately show ?thesis by (intro bexI[rotated]) auto
qed

lemma upsert_Inr_stored:
  assumes "upsert_event_and_features rnd isoparse d req = (Inr (ev, fr), d1)"
  shows "ev \<in> set (events d1) \<and> fr \<in> set (features d1) \<and> event_id_fk fr = id_ev ev
       \<and> event_id ev = event_id_req req"
proof (cases "List.find (\<lambda>e. event_id e = event_id_req req) (events d)")
  case (Some ex)
  from assms[unfolded upsert_existing[OF Some]]
  have "List.find (\<lambda>f. event_id_fk f = id_ev ex) (features d) = Some fr \<and> ev = ex \<and> d1 = d"
    by (auto split: option.splits)
  with Some show ?thesis by (auto simp: find_Some_iff)
next
  case None
  from upsert_new[OF None assms] show ?thesis by auto
qed

lemma upsert_scores_unchanged:
  "scores (snd (upsert_event_and_features rnd isoparse d req)) = scores d"
  by (simp add: upsert_event_and_features_def Let_def add_event_def add_feature_def
           split: option.splits sum.splits)

lemma score_cases:
  assumes "upsert_event_and_features rnd isoparse d req = (r1, d1)"
  shows "(\<exists>e c'. score rnd isoparse fs now d c req = (Inl e, d1, c'))
       \<or> (\<exists>ev fr a r f c'. r1 = Inr (ev, fr)
            \<and> score rnd isoparse fs now d c req =
                (Inr \<lparr>event_id_resp = event_id ev, anomaly_score = a, risk_score = r,
                      flagged = f, reasons = build_reasons d1 ev fr\<rparr>,
                 upsert_score_row d1 ev a r f (build_reasons d1 ev fr) now, c'))"
  by (simp add: score_def assms Let_def split: sum.splits prod.splits)

text \<open>
  C6, as the code has it. A failing \<open>/score\<close> leaves the store exactly as
  \<open>upsert_event_and_features\<close> left it, with the table of scores untouched; a \<open>/score\<close> that
  succeeds leaves the event row, its feature row and a score row carrying the returned score,
  flag and reasons.
\<close>

theorem score_commits:
  "(\<forall>e d' c'. score rnd isoparse fs now d c req = (Inl e, d', c') \<longrightarrow>
        d' = snd (upsert_event_and_features rnd isoparse d req) \<and> scores d' = scores d)
   \<and> (\<forall>resp d' c'. score rnd isoparse fs now d c req = (Inr resp, d', c') \<longrightarrow>
        (\<exists>ev fr. fst (upsert_event_and_features rnd isoparse d req) = Inr (ev, fr)
           \<and> ev \<in> set (events d') \<and> fr \<in> set (features d') \<and> event_id_fk fr = id_ev ev
           \<and> (\<exists>sr\<in>set (scores d').
                  event_id_fk_sr sr = id_ev ev
                \<and> anomaly_score_sr sr = anomaly_score resp
                \<and> risk_score_sr sr = risk_score resp
                \<and> flagged_sr sr = (if flagged resp then 1 else 0)
                \<and> reasons_json sr = reasons resp)))"
proof -
  obtain r1 d1 where u: "upsert_event_and_features rnd isoparse d req = (r1, d1)"
    by (cases "upsert_event_and_features rnd isoparse d req")
  have s: "scores d1 = scores d"
    using upsert_scores_unchanged[of rnd isoparse d req] u by simp
  from score_cases[OF u, of fs now c] show ?thesis
  proof
    assume "\<exists>e c'. score rnd isoparse fs now d c req = (Inl e, d1, c')"
    then show ?thesis using u s by auto
  next
    assume "\<exists>ev fr a r f c'. r1 = Inr (ev, fr)
            \<and> score rnd isoparse fs now d c req =
                (Inr \<lparr>event_id_resp = event_id ev, anomaly_score = a, risk_score = r,
                      flagged = f, reasons = build_reasons d1 ev fr\<rparr>,
                 upsert_score_row d1 ev a r f (build_reasons d1 ev fr) now, c')"
    then obtain ev fr a r f c' where
      r1: "r1 = Inr (ev, fr)" and
      sc: "score rnd isoparse fs now d c req =
                (Inr \<lparr>event_id_resp = event_id ev, anomaly_score = a, risk_score = r,
                      flagged = f, reasons = build_reasons d1 ev fr\<rparr>,
                 upsert_score_row d1 ev a r f (build_reasons d1 ev fr) now, c')"
      by blast
    from u r1 have u': "upsert_event_and_features rnd isoparse d req = (Inr (ev, fr), d1)" by simp
    note st = upsert_Inr_stored[OF u']
    note ro = upsert_score_row_stored[of d1 ev a r f "build_reasons d1 ev fr" now]
    note re = upsert_score_row_events[of d1 ev a r f "build_reasons d1 ev fr" now]
    show ?thesis
      unfolding sc u' using st ro re by auto
  qed
qed

lemma feature_columns_demo:
  "feature_columns fs_demo empty_cache = (Inr [''tx_count_5m''], cache_demo)"
  by (simp add: feature_columns_def load_demo) (simp add: cache_demo_def)

lemma feature_values_demo: "feature_values_of fr1 [''tx_count_5m''] = Inr [0]"
  by (simp add: getattr_float_def fr1_def)

lemma score_feature_vector_demo:
  "score_feature_vector fs_demo cache_demo [Fin 0] = (Inr (Fin 1, Fin 50, False), cache_demo)"
  by (simp add: score_feature_vector_def score_feature_vector_reads_def load_artifacts_def
        cache_demo_def overflow_def max_float_def)

lemma build_reasons_db1: "build_reasons db1 ev1 fr1 = reasons1"
  by (simp add: build_reasons_def firing_reasons_def prior_amounts_def db1_def ev1_def fr1_def
        order_by_timestamp_desc_def reasons1_def)

lemma upsert_score_row_demo:
  "upsert_score_row db1 ev1 (Fin 1) (Fin 50) False reasons1 7 = db2"
  by (simp add: upsert_score_row_def db1_def db2_def next_id_def ev1_def)

lemma score_demo_ok:
  "score (\<lambda>x. x) isoparse_demo fs_demo 7 empty_db empty_cache req_demo = (Inr resp1, db2, cache_demo)"
  unfolding score_def upsert_demo feature_columns_demo
  by (simp add: feature_values_demo score_feature_vector_demo build_reasons_db1
        upsert_score_row_demo resp1_def del: feature_values_of.simps) (simp add: ev1_def)

theorem score_commits_witness:
  "score (\<lambda>x. x) isoparse_demo fs_none 7 empty_db empty_cache req_demo
     = (Inl ArtifactsMissing, db1, empty_cache)
   \<and> db1 = snd (upsert_event_and_features (\<lambda>x. x) isoparse_demo empty_db req_demo)
   \<and> scores db1 = scores empty_db
   \<and> score (\<lambda>x. x) isoparse_demo fs_demo 7 empty_db empty_cache req_demo = (Inr resp1, db2, cache_demo)
   \<and> (\<exists>ev fr. fst (upsert_event_and_features (\<lambda>x. x) isoparse_demo empty_db req_demo) = Inr (ev, fr)
           \<and> ev \<in> set (events db2) \<and> fr \<in> set (features db2) \<and> event_id_fk fr = id_ev ev
           \<and> (\<exists>sr\<in>set (scores db2).
                  event_id_fk_sr sr = id_ev ev
                \<and> anomaly_score_sr sr = anomaly_score resp1
                \<and> risk_score_sr sr = risk_score resp1
                \<and> flagged_sr sr = (if flagged resp1 then 1 else 0)
                \<and> reasons_json sr = reasons resp1))"
proof -
  have f: "score (\<lambda>x. x) isoparse_demo fs_none 7 empty_db empty_cache req_demo
             = (Inl ArtifactsMissing, db1, empty_cache)"
    by (rule score_demo)
  have s: "score (\<lambda>x. x) isoparse_demo fs_demo 7 empty_db empty_cache req_demo = (Inr resp1, db2, cache_demo)"
    by (rule score_demo_ok)
  from score_commits[of "\<lambda>x. x" isoparse_demo fs_none 7 empty_db empty_cache req_demo] f
  have 1: "db1 = snd (upsert_event_and_features (\<lambda>x. x) isoparse_demo empty_db req_demo)
           \<and> scores db1 = scores empty_db"
    by blast
  from score_commits[of "\<lambda>x. x" isoparse_demo fs_demo 7 empty_db empty_cache req_demo] s
  have 2: "\<exists>ev fr. fst (upsert_event_and_features (\<lambda>x. x) isoparse_demo empty_db req_demo) = Inr (ev, fr)
           \<and> ev \<in> set (events db2) \<and> fr \<in> set (features db2) \<and> event_id_fk fr = id_ev ev
           \<and> (\<exists>sr\<in>set (scores db2).
                  event_id_fk_sr sr = id_ev ev
                \<and> anomaly_score_sr sr = anomaly_score resp1
                \<and> risk_score_sr sr = risk_score resp1
                \<and> flagged_sr sr = (if flagged resp1 then 1 else 0)
                \<and> reasons_json sr = reasons resp1)"
    by blast
  from f s 1 2 show ?thesis by blast
qed






end
